theory Spec2Isabelle
  imports Complex_Main "HOL-Library.Multiset"
begin

unbundle bit_operations_syntax

section \<open>Configuration and data model\<close>

text \<open>
  The kernels are compiled against \<^verbatim>\<open>parameters.h\<close>, which fixes
  \<^verbatim>\<open>LOCAL_MEM_BLOCK_LOG\<close> and \<^verbatim>\<open>REGISTER_BLOCK_LOG\<close>. The header is not part
  of the sources at hand, so both constants are taken as parameters.
  \<^verbatim>\<open>BLOCK_SIZE\<close> is \<^verbatim>\<open>1 << LOCAL_MEM_BLOCK_LOG\<close> and \<^verbatim>\<open>GEMM_BLOCK\<close> is
  \<^verbatim>\<open>1 << REGISTER_BLOCK_LOG\<close>.
\<close>

record params =
  LOCAL_MEM_BLOCK_LOG :: nat
  REGISTER_BLOCK_LOG :: nat

definition BLOCK_SIZE :: "params \<Rightarrow> nat" where
  "BLOCK_SIZE p = push_bit (LOCAL_MEM_BLOCK_LOG p) 1"

definition GEMM_BLOCK :: "params \<Rightarrow> nat" where
  "GEMM_BLOCK p = push_bit (REGISTER_BLOCK_LOG p) 1"

text \<open>The expression \<^verbatim>\<open>BLOCK_SIZE/GEMM_BLOCK\<close>, the number of micro-blocks per block row.\<close>

definition MICRO_BLOCKS :: "params \<Rightarrow> nat" where
  "MICRO_BLOCKS p = BLOCK_SIZE p div GEMM_BLOCK p"

text \<open>
  The element type \<^verbatim>\<open>DEVICE_DATA_TYPE\<close> is a floating-point type. It is modelled by a
  type variable that only carries the syntax of the operations the kernels use
  (\<open>+\<close>, \<open>*\<close>, \<open>- 1 / x\<close>, \<open>0\<close>); no algebraic law is assumed of them, so every
  theorem below holds for any interpretation of the arithmetic. Arrays are
  functions from indices to elements; private arrays that the source declares without
  an initialiser start from the indeterminate content \<open>uninit\<close>.
\<close>

type_synonym 'a vec = "nat \<Rightarrow> 'a"
type_synonym 'a mat = "nat \<times> nat \<Rightarrow> 'a"
type_synonym 'a buf4 = "nat \<times> nat \<times> nat \<times> nat \<Rightarrow> 'a"
type_synonym 'a gmem = "nat \<Rightarrow> 'a"

text \<open>A counted loop \<^verbatim>\<open>for (int i = 0; i < n; i++) body\<close> over a state.\<close>

definition for_loop :: "nat \<Rightarrow> (nat \<Rightarrow> 's \<Rightarrow> 's) \<Rightarrow> 's \<Rightarrow> 's" where
  "for_loop n body s = fold body [0..<n] s"

text \<open>
  The index into the matrix buffer \<^verbatim>\<open>a\<close>. The block coordinates and
  \<^verbatim>\<open>blocks_per_row\<close> are \<^verbatim>\<open>uint\<close>, so the whole expression is evaluated in
  unsigned 32-bit arithmetic and wraps.
\<close>

definition global_index :: "params \<Rightarrow> nat \<Rightarrow> nat \<Rightarrow> nat \<Rightarrow> nat \<Rightarrow> nat \<Rightarrow> nat \<Rightarrow> nat \<Rightarrow> nat" where
  "global_index p block_col block_row blocks_per_row i ii j jj =
     (block_col * BLOCK_SIZE p
       + (block_row * BLOCK_SIZE p + i * GEMM_BLOCK p + ii) * BLOCK_SIZE p * blocks_per_row
       + j * GEMM_BLOCK p + jj) mod 2 ^ 32"

text \<open>The index \<^verbatim>\<open>(i * GEMM_BLOCK + ii) * BLOCK_SIZE + j * GEMM_BLOCK + jj\<close> into a block buffer.\<close>

definition local_index :: "params \<Rightarrow> nat \<Rightarrow> nat \<Rightarrow> nat \<Rightarrow> nat \<Rightarrow> nat" where
  "local_index p i ii j jj = (i * GEMM_BLOCK p + ii) * BLOCK_SIZE p + j * GEMM_BLOCK p + jj"

text \<open>
  The loop nest \<^verbatim>\<open>i, ii, j, jj\<close> that every kernel starts with: it copies the block at
  \<^verbatim>\<open>(block_row, block_col)\<close> from the matrix into the local buffer.
\<close>

definition load_block ::
  "params \<Rightarrow> 'a gmem \<Rightarrow> nat \<Rightarrow> nat \<Rightarrow> nat \<Rightarrow> 'a buf4 \<Rightarrow> 'a buf4" where
  "load_block p a block_col block_row blocks_per_row a_buffer =
     for_loop (MICRO_BLOCKS p) (\<lambda>i.
       for_loop (GEMM_BLOCK p) (\<lambda>ii.
         for_loop (MICRO_BLOCKS p) (\<lambda>j.
           for_loop (GEMM_BLOCK p) (\<lambda>jj buf.
             buf((i, j, ii, jj) :=
               a (global_index p block_col block_row blocks_per_row i ii j jj)))))) a_buffer"

text \<open>The loop nest that every kernel ends with: the local buffer goes back into the matrix.\<close>

definition store_block ::
  "params \<Rightarrow> 'a buf4 \<Rightarrow> nat \<Rightarrow> nat \<Rightarrow> nat \<Rightarrow> 'a gmem \<Rightarrow> 'a gmem" where
  "store_block p a_buffer block_col block_row blocks_per_row a =
     for_loop (MICRO_BLOCKS p) (\<lambda>i.
       for_loop (GEMM_BLOCK p) (\<lambda>ii.
         for_loop (MICRO_BLOCKS p) (\<lambda>j.
           for_loop (GEMM_BLOCK p) (\<lambda>jj mem.
             mem(global_index p block_col block_row blocks_per_row i ii j jj :=
               a_buffer (i, j, ii, jj)))))) a"

text \<open>The copy of the local buffer into a separate block buffer (\<^verbatim>\<open>a_block\<close>, \<^verbatim>\<open>top_block\<close>).\<close>

definition store_local :: "params \<Rightarrow> 'a buf4 \<Rightarrow> 'a gmem \<Rightarrow> 'a gmem" where
  "store_local p a_buffer blk =
     for_loop (MICRO_BLOCKS p) (\<lambda>i.
       for_loop (GEMM_BLOCK p) (\<lambda>ii.
         for_loop (MICRO_BLOCKS p) (\<lambda>j.
           for_loop (GEMM_BLOCK p) (\<lambda>jj mem.
             mem(local_index p i ii j jj := a_buffer (i, j, ii, jj)))))) blk"

text \<open>The transposed copy (\<^verbatim>\<open>a_block_trans\<close>, \<^verbatim>\<open>left_block\<close>): it reads \<^verbatim>\<open>a_buffer[j][i][jj][ii]\<close>.\<close>

definition store_local_trans :: "params \<Rightarrow> 'a buf4 \<Rightarrow> 'a gmem \<Rightarrow> 'a gmem" where
  "store_local_trans p a_buffer blk =
     for_loop (MICRO_BLOCKS p) (\<lambda>i.
       for_loop (GEMM_BLOCK p) (\<lambda>ii.
         for_loop (MICRO_BLOCKS p) (\<lambda>j.
           for_loop (GEMM_BLOCK p) (\<lambda>jj mem.
             mem(local_index p i ii j jj := a_buffer (j, i, jj, ii)))))) blk"

section \<open>The micro-step of the diagonal factorizer\<close>

text \<open>
  \<open>lu_block\<close> as it is written: the row \<open>step\<close> is read into \<^verbatim>\<open>line\<close>, the scale
  \<^verbatim>\<open>-1.0 / line[step]\<close> is computed with no test of the pivot, the entries right of the
  diagonal are scaled, the diagonal entry is replaced by the scale, and then every row of
  the output is written. \<open>A_out\<close> is the content of the output array before the call.
\<close>

definition lu_block ::
  "params \<Rightarrow> 'a \<Rightarrow> ('a::{plus,times,uminus,one,inverse}) mat \<Rightarrow> nat \<Rightarrow> 'a mat \<Rightarrow> 'a mat" where
  "lu_block p uninit A step A_out =
     (let line0 = for_loop (GEMM_BLOCK p) (\<lambda>i line. line(i := A (step, i))) (\<lambda>_. uninit);
          inv_scale_a = - 1 / line0 step;
          line1 = for_loop (GEMM_BLOCK p)
                    (\<lambda>i line. if i > step then line(i := line i * inv_scale_a) else line) line0;
          line2 = line1(step := inv_scale_a)
      in for_loop (GEMM_BLOCK p) (\<lambda>j out.
           let curr_scale = A (j, step) in
           if j \<noteq> step then
             for_loop (GEMM_BLOCK p) (\<lambda>i out.
               out((j, i) := (if i > step \<and> j > step then A (j, i) + line2 i * curr_scale
                              else A (j, i)))) out
           else
             for_loop (GEMM_BLOCK p) (\<lambda>i out. out((j, i) := line2 i)) out) A_out)"

text \<open>The micro-step recurrence: \<open>lu_block\<close> called with the steps \<open>0, \<dots>, n - 1\<close> in turn.\<close>

fun lu_steps :: "params \<Rightarrow> 'a \<Rightarrow> ('a::{plus,times,uminus,one,inverse}) mat \<Rightarrow> nat \<Rightarrow> 'a mat" where
  "lu_steps p uninit A 0 = A"
| "lu_steps p uninit A (Suc n) = lu_block p uninit (lu_steps p uninit A n) n (\<lambda>_. uninit)"

section \<open>The block update of the lu kernel\<close>

text \<open>
  \<open>update_block\<close> as it is written; its parameter \<^verbatim>\<open>top\<close> is called \<open>top_arg\<close> here,
  and \<^verbatim>\<open>__fpga_reg\<close>, a placement hint, is the identity. The operation types are
  0 for a top block, 1 for a left block and 2 for an inner block.
\<close>

definition update_block ::
  "params \<Rightarrow> 'a \<Rightarrow> ('a::{plus,times}) mat \<Rightarrow> 'a vec \<Rightarrow> 'a vec \<Rightarrow> 'a mat \<Rightarrow> nat \<Rightarrow> nat \<Rightarrow> 'a mat" where
  "update_block p uninit a top_arg left_or_lu out current_row operation_type =
     (let op_top = 0; op_left = 1; op_inner = 2;
          current_block =
            (if operation_type = op_left then
               for_loop (GEMM_BLOCK p) (\<lambda>ii.
                 for_loop (GEMM_BLOCK p) (\<lambda>jj cb. cb((ii, jj) := a (jj, ii)))) (\<lambda>_. uninit)
             else
               for_loop (GEMM_BLOCK p) (\<lambda>ii.
                 for_loop (GEMM_BLOCK p) (\<lambda>jj cb. cb((ii, jj) := a (ii, jj)))) (\<lambda>_. uninit));
          scale_row0 =
            (if operation_type = op_inner then
               for_loop (GEMM_BLOCK p) (\<lambda>jj sr. sr(jj := top_arg jj)) (\<lambda>_. uninit)
             else
               for_loop (GEMM_BLOCK p) (\<lambda>jj sr. sr(jj := current_block (current_row, jj)))
                 (\<lambda>_. uninit));
          scale_row =
            (if operation_type = op_top then
               for_loop (GEMM_BLOCK p) (\<lambda>jj sr. sr(jj := sr jj * left_or_lu current_row)) scale_row0
             else scale_row0);
          tmp0 = for_loop (GEMM_BLOCK p) (\<lambda>ii.
                   for_loop (GEMM_BLOCK p) (\<lambda>jj t.
                     t((ii, jj) := current_block (ii, jj) + scale_row jj * left_or_lu ii)))
                   (\<lambda>_. uninit);
          tmp =
            (if operation_type \<noteq> op_inner then
               for_loop (GEMM_BLOCK p) (\<lambda>ii t.
                 if ii = current_row then
                   for_loop (GEMM_BLOCK p) (\<lambda>jj t. t((ii, jj) := scale_row jj)) t
                 else if ii < current_row then
                   for_loop (GEMM_BLOCK p) (\<lambda>jj t. t((ii, jj) := current_block (ii, jj))) t
                 else t) tmp0
             else tmp0)
      in if operation_type = op_left then
           for_loop (GEMM_BLOCK p) (\<lambda>ii.
             for_loop (GEMM_BLOCK p) (\<lambda>jj out. out((ii, jj) := tmp (jj, ii)))) out
         else
           for_loop (GEMM_BLOCK p) (\<lambda>ii.
             for_loop (GEMM_BLOCK p) (\<lambda>jj out. out((ii, jj) := tmp (ii, jj)))) out)"

section \<open>The lu kernel\<close>

text \<open>The local memories of the kernel that live across the iterations of its loops.\<close>

record 'a lu_state =
  a_buffer :: "'a buf4"
  top_buffer :: "'a mat"
  left_buffer :: "'a mat"

text \<open>
  The operation that one iteration of the update pipeline hands to \<open>update_block\<close>:
  \<^verbatim>\<open>(i == k) ? 0 : ((j == k) ? 1 : 2)\<close>.
\<close>

definition operation_type_of :: "nat \<Rightarrow> nat \<Rightarrow> nat \<Rightarrow> nat" where
  "operation_type_of i j k = (if i = k then 0 else if j = k then 1 else 2)"

text \<open>
  The guarded body of one iteration \<open>ttj\<close> of the update pipeline at step \<open>gk\<close>, for the
  block \<open>(i, j)\<close> the iteration has selected. \<open>top_junk\<close> is the content that
  \<^verbatim>\<open>top_input\<close> holds when the iteration declares it; it is overwritten only if
  \<^verbatim>\<open>ttj >= BLOCK_SIZE/GEMM_BLOCK\<close>.
\<close>

definition lu_pipeline_body ::
  "params \<Rightarrow> 'a \<Rightarrow> 'a vec \<Rightarrow> nat \<Rightarrow> nat \<Rightarrow> 'a vec \<Rightarrow> 'a vec \<Rightarrow> nat \<Rightarrow> nat \<Rightarrow> nat \<Rightarrow> nat \<Rightarrow>
     ('a::{plus,times}) lu_state \<Rightarrow> 'a lu_state" where
  "lu_pipeline_body p uninit top_junk k kk lu_a_buffer_out_row lu_a_buffer_out_col ttj j ti i st =
     (let second_input =
            (if j = k then
               for_loop (GEMM_BLOCK p) (\<lambda>jj s. s(jj := lu_a_buffer_out_row jj)) (\<lambda>_. uninit)
             else if i = k then
               for_loop (GEMM_BLOCK p) (\<lambda>jj s. s(jj := lu_a_buffer_out_col jj)) (\<lambda>_. uninit)
             else
               for_loop (GEMM_BLOCK p) (\<lambda>jj s. s(jj := left_buffer st (ti AND 1, jj)))
                 (\<lambda>_. uninit));
          a_input = for_loop (GEMM_BLOCK p) (\<lambda>ii.
                      for_loop (GEMM_BLOCK p) (\<lambda>jj m.
                        m((ii, jj) := a_buffer st (i, j, ii, jj)))) (\<lambda>_. uninit);
          top_input =
            (if ttj \<ge> MICRO_BLOCKS p then
               for_loop (GEMM_BLOCK p) (\<lambda>jj t. t(jj := top_buffer st (j, jj))) top_junk
             else top_junk);
          out = update_block p uninit a_input top_input second_input (\<lambda>_. uninit) kk
                  (operation_type_of i j k);
          st1 = (if ttj < MICRO_BLOCKS p then
                   st\<lparr>top_buffer := for_loop (GEMM_BLOCK p)
                         (\<lambda>jj tb. tb((ttj, jj) := out (kk, jj))) (top_buffer st)\<rparr>
                 else st);
          st2 = (if i > k \<and> j = k then
                   st1\<lparr>left_buffer := for_loop (GEMM_BLOCK p)
                         (\<lambda>ii lb. lb(((ti + 1) AND 1, ii) := out (ii, kk)))
                         (left_buffer st1)\<rparr>
                 else st1)
      in st2\<lparr>a_buffer := for_loop (GEMM_BLOCK p) (\<lambda>ii.
                for_loop (GEMM_BLOCK p) (\<lambda>jj ab.
                  ab((i, j, ii, jj) := out (ii, jj)))) (a_buffer st2)\<rparr>)"

text \<open>
  The block an iteration \<open>ttj\<close> selects: \<^verbatim>\<open>j\<close>, \<^verbatim>\<open>ti\<close> and
  \<^verbatim>\<open>i = (j == k) ? ti + 1 : ti\<close>.
\<close>

definition pipeline_j :: "params \<Rightarrow> nat \<Rightarrow> nat" where
  "pipeline_j p ttj = ttj AND (MICRO_BLOCKS p - 1)"

definition pipeline_ti :: "params \<Rightarrow> nat \<Rightarrow> nat \<Rightarrow> nat" where
  "pipeline_ti p k ttj = (ttj + (k * BLOCK_SIZE p) div GEMM_BLOCK p) div MICRO_BLOCKS p"

definition pipeline_i :: "params \<Rightarrow> nat \<Rightarrow> nat \<Rightarrow> nat" where
  "pipeline_i p k ttj =
     (if pipeline_j p ttj = k then pipeline_ti p k ttj + 1 else pipeline_ti p k ttj)"

text \<open>One iteration \<open>ttj\<close> of the update pipeline.\<close>

definition lu_pipeline_iter ::
  "params \<Rightarrow> 'a \<Rightarrow> 'a vec \<Rightarrow> nat \<Rightarrow> nat \<Rightarrow> 'a vec \<Rightarrow> 'a vec \<Rightarrow> nat \<Rightarrow>
     ('a::{plus,times}) lu_state \<Rightarrow> 'a lu_state" where
  "lu_pipeline_iter p uninit top_junk k kk lu_a_buffer_out_row lu_a_buffer_out_col ttj st =
     (let j = pipeline_j p ttj;
          ti = pipeline_ti p k ttj
      in if ti \<ge> k \<and> j \<ge> k then
           (let i = pipeline_i p k ttj
            in if i < MICRO_BLOCKS p then
                 lu_pipeline_body p uninit top_junk k kk lu_a_buffer_out_row lu_a_buffer_out_col
                   ttj j ti i st
               else st)
         else st)"

text \<open>One iteration \<open>gk\<close> of the outer loop of the kernel.\<close>

definition lu_step ::
  "params \<Rightarrow> 'a \<Rightarrow> (nat \<Rightarrow> nat \<Rightarrow> 'a vec) \<Rightarrow> nat \<Rightarrow>
     ('a::{plus,times,uminus,one,inverse}) lu_state \<Rightarrow> 'a lu_state" where
  "lu_step p uninit top_junk gk st =
     (let k = gk div GEMM_BLOCK p;
          kk = gk AND (GEMM_BLOCK p - 1);
          lu_a_buffer_in = for_loop (GEMM_BLOCK p) (\<lambda>ii.
                             for_loop (GEMM_BLOCK p) (\<lambda>jj m.
                               m((ii, jj) := a_buffer st (k, k, ii, jj)))) (\<lambda>_. uninit);
          lu_a_buffer_out = lu_block p uninit lu_a_buffer_in kk (\<lambda>_. uninit);
          st1 = st\<lparr>a_buffer := for_loop (GEMM_BLOCK p) (\<lambda>ii.
                     for_loop (GEMM_BLOCK p) (\<lambda>jj ab.
                       ab((k, k, ii, jj) := lu_a_buffer_out (ii, jj)))) (a_buffer st)\<rparr>;
          lu_a_buffer_out_row = for_loop (GEMM_BLOCK p)
                                  (\<lambda>jj r. r(jj := lu_a_buffer_out (kk, jj))) (\<lambda>_. uninit);
          lu_a_buffer_out_col = for_loop (GEMM_BLOCK p)
                                  (\<lambda>jj c. c(jj := lu_a_buffer_out (jj, kk))) (\<lambda>_. uninit)
      in if gk < BLOCK_SIZE p - GEMM_BLOCK p then
           for_loop (((MICRO_BLOCKS p - k) * BLOCK_SIZE p) div GEMM_BLOCK p)
             (\<lambda>ttj. lu_pipeline_iter p uninit (top_junk gk ttj) k kk
                       lu_a_buffer_out_row lu_a_buffer_out_col ttj) st1
         else st1)"

text \<open>The local memories after the block has been loaded.\<close>

definition lu_init :: "params \<Rightarrow> 'a \<Rightarrow> 'a gmem \<Rightarrow> nat \<Rightarrow> nat \<Rightarrow> nat \<Rightarrow> 'a lu_state" where
  "lu_init p uninit a block_col block_row blocks_per_row =
     \<lparr>a_buffer = load_block p a block_col block_row blocks_per_row (\<lambda>_. uninit),
      top_buffer = (\<lambda>_. uninit), left_buffer = (\<lambda>_. uninit)\<rparr>"

text \<open>The outer loop over the rows \<open>gk\<close> of the block.\<close>

definition lu_loop ::
  "params \<Rightarrow> 'a \<Rightarrow> (nat \<Rightarrow> nat \<Rightarrow> 'a vec) \<Rightarrow> 'a gmem \<Rightarrow> nat \<Rightarrow> nat \<Rightarrow> nat \<Rightarrow>
     ('a::{plus,times,uminus,one,inverse}) lu_state" where
  "lu_loop p uninit top_junk a block_col block_row blocks_per_row =
     for_loop (BLOCK_SIZE p) (lu_step p uninit top_junk)
       (lu_init p uninit a block_col block_row blocks_per_row)"

text \<open>
  The kernel. It returns the three buffers it writes: the matrix \<^verbatim>\<open>a\<close>,
  \<^verbatim>\<open>a_block_trans\<close> and \<^verbatim>\<open>a_block\<close>. The pointers are \<^verbatim>\<open>restrict\<close>, so the three
  buffers are separate stores.
\<close>

definition lu ::
  "params \<Rightarrow> 'a \<Rightarrow> (nat \<Rightarrow> nat \<Rightarrow> 'a vec) \<Rightarrow> 'a gmem \<Rightarrow> 'a gmem \<Rightarrow> 'a gmem \<Rightarrow> nat \<Rightarrow> nat \<Rightarrow> nat \<Rightarrow>
     ('a::{plus,times,uminus,one,inverse}) gmem \<times> 'a gmem \<times> 'a gmem" where
  "lu p uninit top_junk a a_block_trans a_block block_col block_row blocks_per_row =
     (let st = lu_loop p uninit top_junk a block_col block_row blocks_per_row
      in (store_block p (a_buffer st) block_col block_row blocks_per_row a,
          store_local_trans p (a_buffer st) a_block_trans,
          store_local p (a_buffer st) a_block))"

section \<open>The top_update kernel\<close>

text \<open>
  The arrays and the scalar that one iteration \<open>gk\<close> declares and fills while it walks
  over the micro-block columns, together with the local block buffer.
\<close>

record 'a top_state =
  top_a_buffer :: "'a buf4"
  current_lu_col :: "'a mat"
  current_row :: "'a mat"
  current_scale :: 'a

text \<open>One iteration \<open>col\<close> of the first inner loop: the row \<open>gk\<close> is scaled chunk by chunk.\<close>

definition top_col_iter ::
  "params \<Rightarrow> 'a \<Rightarrow> 'a gmem \<Rightarrow> nat \<Rightarrow> nat \<Rightarrow> ('a::{plus,times,zero}) top_state \<Rightarrow> 'a top_state" where
  "top_col_iter p uninit lu_global_buffer_transposed gk col st =
     (let k = gk div GEMM_BLOCK p;
          kk = gk AND (GEMM_BLOCK p - 1);
          scale_chunk0 = for_loop (GEMM_BLOCK p)
                           (\<lambda>i sc. sc(i := top_a_buffer st (k, col, kk, i))) (\<lambda>_. uninit);
          st1 = (if col < MICRO_BLOCKS p - k then
                   (let col_in = for_loop (GEMM_BLOCK p) (\<lambda>i ci.
                                   ci(i := lu_global_buffer_transposed
                                             (gk * BLOCK_SIZE p + (col + k) * GEMM_BLOCK p + i)))
                                   (\<lambda>_. uninit);
                        st' = (if col = 0 then st\<lparr>current_scale := col_in kk\<rparr> else st)
                    in st'\<lparr>current_lu_col := for_loop (GEMM_BLOCK p) (\<lambda>i lc.
                               lc((col, i) := (if col > 0 \<or> i > kk then col_in i else 0)))
                               (current_lu_col st')\<rparr>)
                 else st);
          scale_chunk = for_loop (GEMM_BLOCK p)
                          (\<lambda>i sc. sc(i := sc i * current_scale st1)) scale_chunk0;
          st2 = st1\<lparr>current_row := for_loop (GEMM_BLOCK p)
                      (\<lambda>i cr. cr((col, i) := scale_chunk i)) (current_row st1)\<rparr>
      in st2\<lparr>top_a_buffer := for_loop (GEMM_BLOCK p)
                (\<lambda>i ab. ab((k, col, kk, i) := scale_chunk i)) (top_a_buffer st2)\<rparr>)"

text \<open>The second inner loop nest: all remaining rows are updated with the scaled row.\<close>

definition top_rows_update ::
  "params \<Rightarrow> 'a \<Rightarrow> nat \<Rightarrow> 'a mat \<Rightarrow> 'a mat \<Rightarrow> ('a::{plus,times}) buf4 \<Rightarrow> 'a buf4" where
  "top_rows_update p uninit k lu_col cur_row a_buf =
     for_loop (MICRO_BLOCKS p - k) (\<lambda>row.
       for_loop (MICRO_BLOCKS p) (\<lambda>curr_col a_buf.
         let colbuf = for_loop (GEMM_BLOCK p) (\<lambda>j cb. cb(j := lu_col (row, j))) (\<lambda>_. uninit)
         in for_loop (GEMM_BLOCK p) (\<lambda>i.
              for_loop (GEMM_BLOCK p) (\<lambda>j ab.
                ab((row + k, curr_col, i, j) :=
                  ab (row + k, curr_col, i, j) + colbuf i * cur_row (curr_col, j)))) a_buf)) a_buf"

text \<open>One iteration \<open>gk\<close> of the outer loop, as a function on the local block buffer.\<close>

definition top_step ::
  "params \<Rightarrow> 'a \<Rightarrow> 'a gmem \<Rightarrow> nat \<Rightarrow> ('a::{plus,times,zero}) buf4 \<Rightarrow> 'a buf4" where
  "top_step p uninit lu_global_buffer_transposed gk a_buf =
     (let k = gk div GEMM_BLOCK p;
          st = for_loop (MICRO_BLOCKS p) (top_col_iter p uninit lu_global_buffer_transposed gk)
                 \<lparr>top_a_buffer = a_buf, current_lu_col = (\<lambda>_. uninit),
                  current_row = (\<lambda>_. uninit), current_scale = uninit\<rparr>
      in top_rows_update p uninit k (current_lu_col st) (current_row st) (top_a_buffer st))"

text \<open>
  The kernel returns the two buffers it writes: the matrix and \<^verbatim>\<open>top_block\<close>. Its body
  does not mention \<^verbatim>\<open>is_first_block\<close>.
\<close>

definition top_update ::
  "params \<Rightarrow> 'a \<Rightarrow> 'a gmem \<Rightarrow> 'a gmem \<Rightarrow> 'a gmem \<Rightarrow> nat \<Rightarrow> nat \<Rightarrow> nat \<Rightarrow> nat \<Rightarrow>
     ('a::{plus,times,zero}) gmem \<times> 'a gmem" where
  "top_update p uninit a top_block lu_global_buffer_transposed is_first_block
       block_col block_row blocks_per_row =
     (let a_buf = for_loop (BLOCK_SIZE p) (top_step p uninit lu_global_buffer_transposed)
                    (load_block p a block_col block_row blocks_per_row (\<lambda>_. uninit))
      in (store_block p a_buf block_col block_row blocks_per_row a,
          store_local p a_buf top_block))"

section \<open>The left_update kernel\<close>

record 'a left_state =
  current_lu_row :: "'a mat"
  current_col :: "'a mat"

text \<open>
  One iteration \<open>col\<close> of the first inner loop: it only reads the block buffer and fills
  the two arrays.
\<close>

definition left_col_iter ::
  "params \<Rightarrow> 'a \<Rightarrow> 'a gmem \<Rightarrow> 'a buf4 \<Rightarrow> nat \<Rightarrow> nat \<Rightarrow> ('a::{plus,times,zero}) left_state \<Rightarrow>
     'a left_state" where
  "left_col_iter p uninit lu_global_buffer a_buf gk col st =
     (let k = gk div GEMM_BLOCK p;
          kk = gk AND (GEMM_BLOCK p - 1);
          chunk = for_loop (GEMM_BLOCK p) (\<lambda>i c. c(i := a_buf (col, k, i, kk))) (\<lambda>_. uninit);
          st1 = st\<lparr>current_col := for_loop (GEMM_BLOCK p)
                      (\<lambda>i cc. cc((col, i) := chunk i)) (current_col st)\<rparr>
      in if col < MICRO_BLOCKS p - k then
           (let row_in = for_loop (GEMM_BLOCK p) (\<lambda>i ri.
                           ri(i := lu_global_buffer
                                     (gk * BLOCK_SIZE p + (col + k) * GEMM_BLOCK p + i)))
                           (\<lambda>_. uninit)
            in st1\<lparr>current_lu_row := for_loop (GEMM_BLOCK p) (\<lambda>i lr.
                      lr((col, i) := (if col > 0 \<or> i > kk then row_in i else 0)))
                      (current_lu_row st1)\<rparr>)
         else st1)"

definition left_rows_update ::
  "params \<Rightarrow> 'a \<Rightarrow> nat \<Rightarrow> 'a mat \<Rightarrow> 'a mat \<Rightarrow> ('a::{plus,times}) buf4 \<Rightarrow> 'a buf4" where
  "left_rows_update p uninit k lu_row cur_col a_buf =
     for_loop (MICRO_BLOCKS p) (\<lambda>row.
       for_loop (MICRO_BLOCKS p - k) (\<lambda>curr_col a_buf.
         let colbuf = for_loop (GEMM_BLOCK p) (\<lambda>j cb. cb(j := cur_col (row, j))) (\<lambda>_. uninit)
         in for_loop (GEMM_BLOCK p) (\<lambda>i.
              for_loop (GEMM_BLOCK p) (\<lambda>j ab.
                ab((row, curr_col + k, i, j) :=
                  ab (row, curr_col + k, i, j) + lu_row (curr_col, j) * colbuf i))) a_buf)) a_buf"

definition left_step ::
  "params \<Rightarrow> 'a \<Rightarrow> 'a gmem \<Rightarrow> nat \<Rightarrow> ('a::{plus,times,zero}) buf4 \<Rightarrow> 'a buf4" where
  "left_step p uninit lu_global_buffer gk a_buf =
     (let k = gk div GEMM_BLOCK p;
          st = for_loop (MICRO_BLOCKS p) (left_col_iter p uninit lu_global_buffer a_buf gk)
                 \<lparr>current_lu_row = (\<lambda>_. uninit), current_col = (\<lambda>_. uninit)\<rparr>
      in left_rows_update p uninit k (current_lu_row st) (current_col st) a_buf)"

text \<open>
  The kernel returns the matrix and \<^verbatim>\<open>left_block\<close>, which it stores transposed. Its
  body does not mention \<^verbatim>\<open>is_first_block\<close>.
\<close>

definition left_update ::
  "params \<Rightarrow> 'a \<Rightarrow> 'a gmem \<Rightarrow> 'a gmem \<Rightarrow> 'a gmem \<Rightarrow> nat \<Rightarrow> nat \<Rightarrow> nat \<Rightarrow> nat \<Rightarrow>
     ('a::{plus,times,zero}) gmem \<times> 'a gmem" where
  "left_update p uninit a left_block lu_global_buffer is_first_block
       block_col block_row blocks_per_row =
     (let a_buf = for_loop (BLOCK_SIZE p) (left_step p uninit lu_global_buffer)
                    (load_block p a block_col block_row blocks_per_row (\<lambda>_. uninit))
      in (store_block p a_buf block_col block_row blocks_per_row a,
          store_local_trans p a_buf left_block))"

section \<open>The inner_update_mm kernel\<close>

record 'a inner_state =
  inner_a_buffer :: "'a buf4"
  inner_top_buffer :: "'a buf4"
  inner_left_buffer :: "'a buf4"

text \<open>The load nest of this kernel fills three local buffers in its \<open>j\<close> loop.\<close>

definition inner_load ::
  "params \<Rightarrow> 'a gmem \<Rightarrow> 'a gmem \<Rightarrow> 'a gmem \<Rightarrow> nat \<Rightarrow> nat \<Rightarrow> nat \<Rightarrow> 'a inner_state \<Rightarrow>
     'a inner_state" where
  "inner_load p a left_global_buffer top_global_buffer block_col block_row blocks_per_row st =
     for_loop (MICRO_BLOCKS p) (\<lambda>i.
       for_loop (GEMM_BLOCK p) (\<lambda>ii.
         for_loop (MICRO_BLOCKS p) (\<lambda>j st.
           let st1 = st\<lparr>inner_a_buffer := for_loop (GEMM_BLOCK p) (\<lambda>jj buf.
                          buf((i, j, ii, jj) :=
                            a (global_index p block_col block_row blocks_per_row i ii j jj)))
                          (inner_a_buffer st)\<rparr>;
               st2 = st1\<lparr>inner_top_buffer := for_loop (GEMM_BLOCK p) (\<lambda>jj buf.
                           buf((i, j, ii, jj) := top_global_buffer (local_index p i ii j jj)))
                           (inner_top_buffer st1)\<rparr>
           in st2\<lparr>inner_left_buffer := for_loop (GEMM_BLOCK p) (\<lambda>jj buf.
                    buf((i, j, ii, jj) := left_global_buffer (local_index p i ii j jj)))
                    (inner_left_buffer st2)\<rparr>))) st"

text \<open>
  The body of one iteration of the update loop, for the micro-block \<open>(row, curr_col)\<close>
  and the micro-block row \<open>mcol\<close> of the two operands the iteration has selected: a
  micro-block product is added to a micro-block.
\<close>

definition inner_block_update ::
  "params \<Rightarrow> 'a \<Rightarrow> 'a buf4 \<Rightarrow> 'a buf4 \<Rightarrow> nat \<Rightarrow> nat \<Rightarrow> nat \<Rightarrow> ('a::{plus,times}) buf4 \<Rightarrow> 'a buf4" where
  "inner_block_update p uninit top_buf left_buf mcol row curr_col a_buf =
     (let top_sub = for_loop (GEMM_BLOCK p) (\<lambda>i.
                      for_loop (GEMM_BLOCK p) (\<lambda>j m.
                        m((i, j) := top_buf (mcol, curr_col, i, j)))) (\<lambda>_. uninit);
          left_sub = for_loop (GEMM_BLOCK p) (\<lambda>i.
                       for_loop (GEMM_BLOCK p) (\<lambda>j m.
                         m((i, j) := left_buf (mcol, row, i, j)))) (\<lambda>_. uninit);
          result_sub = for_loop (GEMM_BLOCK p) (\<lambda>k.
                         for_loop (GEMM_BLOCK p) (\<lambda>i.
                           for_loop (GEMM_BLOCK p) (\<lambda>j rs.
                             rs((i, j) :=
                               (if k > 0 then rs (i, j) else a_buf (row, curr_col, i, j))
                                 + left_sub (k, i) * top_sub (k, j))))) (\<lambda>_. uninit)
      in for_loop (GEMM_BLOCK p) (\<lambda>i.
           for_loop (GEMM_BLOCK p) (\<lambda>j ab.
             ab((row, curr_col, i, j) := result_sub (i, j)))) a_buf)"

text \<open>One iteration \<open>c\<close> of the update loop.\<close>

definition inner_iter ::
  "params \<Rightarrow> 'a \<Rightarrow> 'a buf4 \<Rightarrow> 'a buf4 \<Rightarrow> nat \<Rightarrow> ('a::{plus,times}) buf4 \<Rightarrow> 'a buf4" where
  "inner_iter p uninit top_buf left_buf c a_buf =
     (let mcol = c div (MICRO_BLOCKS p * MICRO_BLOCKS p);
          row = (c div MICRO_BLOCKS p) AND (MICRO_BLOCKS p - 1);
          curr_col = c AND (MICRO_BLOCKS p - 1)
      in inner_block_update p uninit top_buf left_buf mcol row curr_col a_buf)"

text \<open>
  The code generator stamps this kernel out once for every replication, under the names
  \<^verbatim>\<open>inner_update_mm0\<close>, \<^verbatim>\<open>inner_update_mm1\<close>, and so on; \<open>replica\<close> is the number in
  the name.
\<close>

definition inner_update_mm ::
  "params \<Rightarrow> 'a \<Rightarrow> nat \<Rightarrow> 'a gmem \<Rightarrow> 'a gmem \<Rightarrow> 'a gmem \<Rightarrow> nat \<Rightarrow> nat \<Rightarrow> nat \<Rightarrow>
     ('a::{plus,times}) gmem" where
  "inner_update_mm p uninit replica a left_global_buffer top_global_buffer
       block_col block_row blocks_per_row =
     (let st = inner_load p a left_global_buffer top_global_buffer
                 block_col block_row blocks_per_row
                 \<lparr>inner_a_buffer = (\<lambda>_. uninit), inner_top_buffer = (\<lambda>_. uninit),
                  inner_left_buffer = (\<lambda>_. uninit)\<rparr>;
          a_buf = for_loop (MICRO_BLOCKS p * MICRO_BLOCKS p * MICRO_BLOCKS p)
                    (inner_iter p uninit (inner_top_buffer st) (inner_left_buffer st))
                    (inner_a_buffer st)
      in store_block p a_buf block_col block_row blocks_per_row a)"

section \<open>The benchmark harness\<close>

text \<open>
  \<open>HpccFpgaBenchmark\<close> talks to the outside through the argument parser, the device
  setup of \<^verbatim>\<open>fpga_setup\<close> and the virtual methods a benchmark overrides. None of them
  is part of the sources at hand. Their outcomes are the fields of \<open>env\<close>; what the class
  calls and prints is recorded, in order, in the \<open>trace\<close> of the benchmark object.
  \<^verbatim>\<open>FpgaSetupException\<close> is taken to derive from \<^verbatim>\<open>std::exception\<close>, so the
  handler of \<open>setupBenchmark\<close> catches it.
\<close>

record settings =
  testOnly :: bool
  skipValidation :: bool
  dumpfilePath :: string

datatype parse_outcome = ParseHelp | ParseError | Parsed settings

record env =
  parseProgramParameters :: parse_outcome
  selectFPGADevice_ok :: bool
  fpgaSetup_ok :: bool
  checkInputParameters :: bool
  generateInputData_ok :: bool
  executeKernel_ok :: bool
  validateOutput :: "bool option"
  printError_ok :: bool
  collectResults_ok :: bool
  dumpConfigurationAndResults_ok :: bool
  printResults_ok :: bool

datatype event =
    CallSelectFPGADevice
  | CallFpgaSetup
  | CallCheckInputParameters
  | ErrInputParameterCheckFailed
  | ErrSetupFailed
  | PrintFinalConfiguration
  | ErrExecutionWithoutSetup
  | PrintTestMode
  | PrintStart
  | CallGenerateInputData
  | CallExecuteKernel
  | CallValidateOutput
  | CallPrintError
  | CallCollectResults
  | CallDumpConfigurationAndResults
  | CallPrintResults
  | ErrValidationFailed
  | PrintValidationSuccess
  | ErrExecutionFailed

record benchmark =
  benchmark_setup_succeeded :: bool
  executionSettings :: "settings option"
  mpi_comm_rank :: int
  validated :: bool
  trace :: "event list"

datatype host_error = ProcessExit | NullPointerDereference

definition log_event :: "event \<Rightarrow> benchmark \<Rightarrow> benchmark" where
  "log_event ev bm = bm\<lparr>trace := trace bm @ [ev]\<rparr>"

text \<open>
  The body of the \<^verbatim>\<open>try\<close> block of \<open>setupBenchmark\<close>: \<open>Inl\<close> is a caught exception,
  with the object as it was when the exception was thrown.
\<close>

definition setup_try :: "env \<Rightarrow> settings \<Rightarrow> benchmark \<Rightarrow> benchmark + benchmark" where
  "setup_try e programSettings bm =
     (let dev =
            (if \<not> testOnly programSettings then
               (let bm1 = log_event CallSelectFPGADevice bm
                in if \<not> selectFPGADevice_ok e then Inl bm1
                   else (let bm2 = log_event CallFpgaSetup bm1
                         in if \<not> fpgaSetup_ok e then Inl bm2 else Inr bm2))
             else Inr bm)
      in case dev of
           Inl bm' \<Rightarrow> Inl bm'
         | Inr bm' \<Rightarrow>
             (let bm3 = bm'\<lparr>executionSettings := Some programSettings\<rparr>
              in if mpi_comm_rank bm3 = 0 then
                   (let bm4 = log_event CallCheckInputParameters bm3
                    in if \<not> checkInputParameters e then
                         Inl (log_event ErrInputParameterCheckFailed bm4)
                       else Inr (log_event PrintFinalConfiguration bm4))
                 else Inr bm3))"

definition setupBenchmark :: "env \<Rightarrow> benchmark \<Rightarrow> host_error + bool \<times> benchmark" where
  "setupBenchmark e bm =
     (case parseProgramParameters e of
        ParseHelp \<Rightarrow> Inl ProcessExit
      | ParseError \<Rightarrow>
          Inr (False, (log_event ErrSetupFailed bm)\<lparr>benchmark_setup_succeeded := False\<rparr>)
      | Parsed programSettings \<Rightarrow>
          (case setup_try e programSettings bm of
             Inl bm' \<Rightarrow>
               Inr (False, (log_event ErrSetupFailed bm')\<lparr>benchmark_setup_succeeded := False\<rparr>)
           | Inr bm' \<Rightarrow> Inr (True, bm'\<lparr>benchmark_setup_succeeded := True\<rparr>)))"

text \<open>
  The body of the \<^verbatim>\<open>try\<close> block of \<open>executeBenchmark\<close>: \<open>Inl\<close> is a caught
  exception, with the object as it was when the exception was thrown. Every call the
  block makes can raise: the virtual methods, and \<open>dumpConfigurationAndResults\<close>, whose
  \<open>getEnvironmentMap\<close> builds a string from \<^verbatim>\<open>getenv("LD_LIBRARY_PATH")\<close> and raises
  when the variable is not set. The \<open>_ok\<close> fields of the environment say which calls
  return.
\<close>

definition execute_try :: "env \<Rightarrow> settings \<Rightarrow> benchmark \<Rightarrow> benchmark + bool \<times> benchmark" where
  "execute_try e s bm =
     (let bm1 = log_event CallGenerateInputData bm
      in if \<not> generateInputData_ok e then Inl bm1
         else
           (let bm2 = log_event CallExecuteKernel bm1
            in if \<not> executeKernel_ok e then Inl bm2
               else
                 (let val =
                        (if \<not> skipValidation s then
                           (let bm3 = log_event CallValidateOutput bm2
                            in case validateOutput e of
                                 None \<Rightarrow> Inl bm3
                               | Some v \<Rightarrow>
                                   (let bm4 = bm3\<lparr>validated := v\<rparr>
                                    in if mpi_comm_rank bm4 = 0 then
                                         (let bm4' = log_event CallPrintError bm4
                                          in if \<not> printError_ok e then Inl bm4' else Inr bm4')
                                       else Inr bm4))
                         else Inr bm2)
                  in case val of
                       Inl bm' \<Rightarrow> Inl bm'
                     | Inr bm' \<Rightarrow>
                         (let bm5 = log_event CallCollectResults bm'
                          in if \<not> collectResults_ok e then Inl bm5
                             else if mpi_comm_rank bm5 = 0 then
                               (let dump =
                                      (if length (dumpfilePath s) > 0 then
                                         (let bm6 = log_event CallDumpConfigurationAndResults bm5
                                          in if \<not> dumpConfigurationAndResults_ok e
                                             then Inl bm6 else Inr bm6)
                                       else Inr bm5)
                                in case dump of
                                     Inl bm'' \<Rightarrow> Inl bm''
                                   | Inr bm7 \<Rightarrow>
                                       (let bm8 = log_event CallPrintResults bm7
                                        in if \<not> printResults_ok e then Inl bm8
                                           else
                                             (let bm9 = (if \<not> validated bm8
                                                         then log_event ErrValidationFailed bm8
                                                         else log_event PrintValidationSuccess bm8)
                                              in Inr (validated bm9, bm9))))
                             else Inr (validated bm5, bm5)))))"

definition executeBenchmark :: "env \<Rightarrow> benchmark \<Rightarrow> host_error + bool \<times> benchmark" where
  "executeBenchmark e bm =
     (if \<not> benchmark_setup_succeeded bm then
        Inr (False, log_event ErrExecutionWithoutSetup bm)
      else
        (case executionSettings bm of
           None \<Rightarrow> Inl NullPointerDereference
         | Some s \<Rightarrow>
             if testOnly s then
               Inr (benchmark_setup_succeeded bm,
                    if mpi_comm_rank bm = 0 then log_event PrintTestMode bm else bm)
             else
               (let bm1 = (if mpi_comm_rank bm = 0 then log_event PrintStart bm else bm)
                in case execute_try e s bm1 of
                     Inl bm' \<Rightarrow> Inr (False, log_event ErrExecutionFailed bm')
                   | Inr r \<Rightarrow> Inr r)))"

text \<open>A sequence of calls of \<open>executeBenchmark\<close> on the same object, with their results.\<close>

fun executeBenchmark_calls ::
  "env list \<Rightarrow> benchmark \<Rightarrow> host_error + bool list \<times> benchmark" where
  "executeBenchmark_calls [] bm = Inr ([], bm)"
| "executeBenchmark_calls (e # es) bm =
     (case executeBenchmark e bm of
        Inl err \<Rightarrow> Inl err
      | Inr (r, bm') \<Rightarrow>
          (case executeBenchmark_calls es bm' of
             Inl err \<Rightarrow> Inl err
           | Inr (rs, bm'') \<Rightarrow> Inr (r # rs, bm'')))"

section \<open>The block scheduler\<close>

text \<open>
  Modelled from the spec: the block scheduler and the replication partition are host
  code that is not part of the sources at hand. At step \<open>k\<close> the trailing-submatrix
  updater runs over all blocks \<open>(i, j)\<close> with \<open>i, j > k\<close>.
\<close>

definition trailing_blocks :: "nat \<Rightarrow> nat \<Rightarrow> (nat \<times> nat) list" where
  "trailing_blocks k blocks_per_row =
     List.product [Suc k..<blocks_per_row] [Suc k..<blocks_per_row]"

text \<open>
  Modelled from the spec: a worker processes its blocks one after the other with its
  copy \<open>w\<close> of the kernel; block \<open>(i, j)\<close> takes the column-block output for block row
  \<open>i\<close> as left operand and the row-block output for block column \<open>j\<close> as top operand.
\<close>

definition run_worker ::
  "params \<Rightarrow> 'a \<Rightarrow> nat \<Rightarrow> (nat \<Rightarrow> 'a gmem) \<Rightarrow> (nat \<Rightarrow> 'a gmem) \<Rightarrow> nat \<Rightarrow> (nat \<times> nat) list \<Rightarrow>
     ('a::{plus,times}) gmem \<Rightarrow> 'a gmem" where
  "run_worker p uninit w left_blocks top_blocks blocks_per_row blks a =
     fold (\<lambda>(i, j) a. inner_update_mm p uninit w a (left_blocks i) (top_blocks j)
                         j i blocks_per_row) blks a"

text \<open>
  Modelled from the spec: a static assignment \<open>assign\<close> maps each trailing block to one
  of \<open>R\<close> workers, which own disjoint sets of blocks and share no mutable state; their
  effects on the matrix are taken one worker after the other.
\<close>

definition trailing_update ::
  "params \<Rightarrow> 'a \<Rightarrow> nat \<Rightarrow> (nat \<times> nat \<Rightarrow> nat) \<Rightarrow> (nat \<Rightarrow> 'a gmem) \<Rightarrow> (nat \<Rightarrow> 'a gmem) \<Rightarrow>
     nat \<Rightarrow> nat \<Rightarrow> ('a::{plus,times}) gmem \<Rightarrow> 'a gmem" where
  "trailing_update p uninit R assign left_blocks top_blocks k blocks_per_row a =
     fold (\<lambda>w. run_worker p uninit w left_blocks top_blocks blocks_per_row
                 (filter (\<lambda>b. assign b = w) (trailing_blocks k blocks_per_row)))
       [0..<R] a"

text \<open>
  Modelled from the spec: the row propagator runs over the blocks \<open>(k, j)\<close> with \<open>j > k\<close>
  and hands one row-block output per block column to the trailing updater.
\<close>

definition top_stage ::
  "params \<Rightarrow> 'a \<Rightarrow> 'a gmem \<Rightarrow> nat \<Rightarrow> nat \<Rightarrow> ('a::{plus,times,zero}) gmem \<times> (nat \<Rightarrow> 'a gmem) \<Rightarrow>
     'a gmem \<times> (nat \<Rightarrow> 'a gmem)" where
  "top_stage p uninit lu_t k blocks_per_row s =
     fold (\<lambda>j (a, tops).
             let (a', top_block) = top_update p uninit a (\<lambda>_. uninit) lu_t
                                     (if j = Suc k then 1 else 0) j k blocks_per_row
             in (a', tops(j := top_block)))
       [Suc k..<blocks_per_row] s"

text \<open>
  Modelled from the spec: the column propagator runs over the blocks \<open>(i, k)\<close> with
  \<open>i > k\<close> and hands one column-block output per block row to the trailing updater.
\<close>

definition left_stage ::
  "params \<Rightarrow> 'a \<Rightarrow> 'a gmem \<Rightarrow> nat \<Rightarrow> nat \<Rightarrow> ('a::{plus,times,zero}) gmem \<times> (nat \<Rightarrow> 'a gmem) \<Rightarrow>
     'a gmem \<times> (nat \<Rightarrow> 'a gmem)" where
  "left_stage p uninit lu_b k blocks_per_row s =
     fold (\<lambda>i (a, lefts).
             let (a', left_block) = left_update p uninit a (\<lambda>_. uninit) lu_b
                                      (if i = Suc k then 1 else 0) k i blocks_per_row
             in (a', lefts(i := left_block)))
       [Suc k..<blocks_per_row] s"

text \<open>
  Modelled from the spec: one diagonal step \<open>k\<close> of the scheduler. The diagonal
  factorizer runs on block \<open>(k, k)\<close>, then the row propagator, then the column
  propagator, then the trailing-submatrix updater, each on the matrix the stage before
  it has committed.
\<close>

definition factor_step ::
  "params \<Rightarrow> 'a \<Rightarrow> (nat \<Rightarrow> nat \<Rightarrow> 'a vec) \<Rightarrow> nat \<Rightarrow> (nat \<Rightarrow> nat \<times> nat \<Rightarrow> nat) \<Rightarrow> nat \<Rightarrow> nat \<Rightarrow>
     ('a::{plus,times,zero,uminus,one,inverse}) gmem \<Rightarrow> 'a gmem" where
  "factor_step p uninit top_junk R assign blocks_per_row k a =
     (let (a1, lu_t, lu_b) = lu p uninit top_junk a (\<lambda>_. uninit) (\<lambda>_. uninit)
                               k k blocks_per_row;
          (a2, tops) = top_stage p uninit lu_t k blocks_per_row (a1, \<lambda>_ _. uninit);
          (a3, lefts) = left_stage p uninit lu_b k blocks_per_row (a2, \<lambda>_ _. uninit)
      in trailing_update p uninit R (assign k) lefts tops k blocks_per_row a3)"

text \<open>
  Modelled from the spec: the factorization runs the steps
  \<open>k = 0, \<dots>, blocks_per_row - 1\<close> in order, with replication factor \<open>R\<close>.
\<close>

definition factorize ::
  "params \<Rightarrow> 'a \<Rightarrow> (nat \<Rightarrow> nat \<Rightarrow> 'a vec) \<Rightarrow> nat \<Rightarrow> (nat \<Rightarrow> nat \<times> nat \<Rightarrow> nat) \<Rightarrow>
     ('a::{plus,times,zero,uminus,one,inverse}) gmem \<Rightarrow> nat \<Rightarrow> 'a gmem" where
  "factorize p uninit top_junk R assign a blocks_per_row =
     fold (factor_step p uninit top_junk R assign blocks_per_row) [0..<blocks_per_row] a"


section \<open>Example inputs\<close>

text \<open>A configuration with \<open>BLOCK_SIZE = GEMM_BLOCK = 2\<close> and a 2 x 2 matrix in one block.\<close>

definition cfg22 :: params where
  "cfg22 = \<lparr>LOCAL_MEM_BLOCK_LOG = 1, REGISTER_BLOCK_LOG = 1\<rparr>"

definition matrix22 :: "real gmem" where
  "matrix22 = (\<lambda>n. if n = 0 then 2 else if n = 3 then 3 else 1)"

text \<open>
  A configuration with \<open>BLOCK_SIZE = 2\<close> and \<open>GEMM_BLOCK = 1\<close>; a 4 x 4 matrix, which has
  2 x 2 blocks, with two block buffers to update its trailing block \<open>(1, 1)\<close> at step 0;
  and a 6 x 6 matrix, which has 3 x 3 blocks and four trailing blocks at step 0.
\<close>

definition cfg21 :: params where
  "cfg21 = \<lparr>LOCAL_MEM_BLOCK_LOG = 1, REGISTER_BLOCK_LOG = 0\<rparr>"

definition matrix44 :: "real gmem" where
  "matrix44 = (\<lambda>n. if n mod 5 = 0 then 4 else 1)"

definition left_block4 :: "real gmem" where
  "left_block4 = (\<lambda>n. of_nat n + 1)"

definition top_block4 :: "real gmem" where
  "top_block4 = (\<lambda>n. of_nat n + 5)"

definition matrix66 :: "real gmem" where
  "matrix66 = (\<lambda>n. if n mod 7 = 0 then 8 else 1)"

section \<open>Counted loops\<close>

lemma for_loop_0: "for_loop 0 body s = s"
  by (simp add: for_loop_def)

lemma for_loop_Suc: "for_loop (Suc n) body s = body n (for_loop n body s)"
  by (simp add: for_loop_def)

lemma for_loop_invariant:
  assumes "I 0 s0" and "\<And>i s. i < n \<Longrightarrow> I i s \<Longrightarrow> I (Suc i) (body i s)"
  shows "I n (for_loop n body s0)"
  using assms(2)
proof (induction n)
  case 0
  show ?case using assms(1) by (simp add: for_loop_0)
next
  case (Suc n)
  have "I n (for_loop n body s0)" using Suc by simp
  then show ?case using Suc.prems [of n] by (simp add: for_loop_Suc)
qed

lemma for_loop_frame:
  assumes "\<And>i s. i < n \<Longrightarrow> body i s x = s x"
  shows "for_loop n body s0 x = s0 x"
  by (rule for_loop_invariant [where I = "\<lambda>i s. s x = s0 x"]) (simp_all add: assms)

lemma for_loop_cell:
  assumes "i0 < n"
    and "\<And>i s. i < n \<Longrightarrow> i \<noteq> i0 \<Longrightarrow> body i s x = s x"
    and "\<And>s. body i0 s x = g (s x)"
  shows "for_loop n body s0 x = g (s0 x)"
proof -
  have "for_loop n body s0 x = (if i0 < n then g (s0 x) else s0 x)"
  proof (rule for_loop_invariant [where I = "\<lambda>i s. s x = (if i0 < i then g (s0 x) else s0 x)"])
    show "s0 x = (if i0 < 0 then g (s0 x) else s0 x)" by simp
  next
    fix i s
    assume "i < n" and "s x = (if i0 < i then g (s0 x) else s0 x)"
    then show "body i s x = (if i0 < Suc i then g (s0 x) else s0 x)"
      using assms(2) [of i s] assms(3) [of s] by (cases "i = i0") auto
  qed
  then show ?thesis using assms(1) by simp
qed

lemma for_loop_cong:
  assumes "\<And>i s. i < n \<Longrightarrow> body i s = body' i s"
  shows "for_loop n body s0 = for_loop n body' s0"
  using assms by (induction n) (simp_all add: for_loop_0 for_loop_Suc)

lemma for_loop_pointwise:
  assumes "\<And>i s. i < n \<Longrightarrow> body i s x = h i (s x)"
  shows "for_loop n body s0 x = for_loop n h (s0 x)"
  using assms by (induction n) (simp_all add: for_loop_0 for_loop_Suc)

lemma for_loop_proj:
  assumes "\<And>i s. proj (body i s) = body' i (proj s)"
  shows "proj (for_loop n body s) = for_loop n body' (proj s)"
  by (induction n) (simp_all add: for_loop_0 for_loop_Suc assms)

lemma for_loop_add:
  "for_loop (n + m) body s = for_loop m (\<lambda>i. body (n + i)) (for_loop n body s)"
  by (induction m) (simp_all add: for_loop_0 for_loop_Suc)

lemma for_loop_split:
  assumes "a \<le> n"
  shows "for_loop n body s = fold body [a..<n] (for_loop a body s)"
proof -
  have "[0..<n] = [0..<a] @ [a..<n]"
    using assms upt_add_eq_append [of 0 a "n - a"] by simp
  then show ?thesis by (simp add: for_loop_def)
qed

text \<open>A loop over \<open>a * b\<close> iterations that decodes its counter is a nest of two loops.\<close>

lemma for_loop_flatten:
  "for_loop (a * b) (\<lambda>c. f (c div b) (c mod b)) s = for_loop a (\<lambda>x. for_loop b (f x)) s"
proof (induction a)
  case 0
  show ?case by (simp add: for_loop_0)
next
  case (Suc a)
  have "for_loop (Suc a * b) (\<lambda>c. f (c div b) (c mod b)) s
        = for_loop b (\<lambda>i. f ((a * b + i) div b) ((a * b + i) mod b))
            (for_loop (a * b) (\<lambda>c. f (c div b) (c mod b)) s)"
    using for_loop_add [of "a * b" b "\<lambda>c. f (c div b) (c mod b)" s] by (simp add: add.commute)
  also have "\<dots> = for_loop b (f a) (for_loop (a * b) (\<lambda>c. f (c div b) (c mod b)) s)"
    by (rule for_loop_cong) simp
  finally show ?case by (simp add: Suc for_loop_Suc)
qed

lemma for_loop_2: "for_loop 2 body s = body 1 (body 0 s)"
  by (simp add: for_loop_def upt_rec)

lemma for_loop_upd:
  "for_loop n (\<lambda>i f. f(i := v i)) f0 = (\<lambda>i. if i < n then v i else f0 i)"
  by (induction n) (auto simp: for_loop_0 for_loop_Suc)

lemma for_loop_upd_other:
  assumes "\<And>i. i < n \<Longrightarrow> key i \<noteq> x"
  shows "for_loop n (\<lambda>i f. f(key i := v i f)) f0 x = f0 x"
  by (rule for_loop_frame) (use assms in auto)

lemma for_loop_upd_row:
  "for_loop n (\<lambda>i f. f((j, i) := v i)) f0 =
     (\<lambda>x. if fst x = j \<and> snd x < n then v (snd x) else f0 x)"
  by (induction n) (auto simp: for_loop_0 for_loop_Suc fun_eq_iff)

lemma nest2_upd:
  "for_loop n (\<lambda>ii. for_loop m (\<lambda>jj f. f((ii, jj) := v ii jj))) f0 =
     (\<lambda>x. if fst x < n \<and> snd x < m then v (fst x) (snd x) else f0 x)"
proof (induction n)
  case 0
  show ?case by (simp add: for_loop_0)
next
  case (Suc n)
  show ?case
    by (subst for_loop_Suc, subst Suc, subst for_loop_upd_row) (auto simp: fun_eq_iff)
qed

lemma nest2_cell:
  assumes "i0 < n" and "j0 < m"
  shows "for_loop n (\<lambda>i. for_loop m (\<lambda>j f. f((i, j) := v i j (f (i, j))))) f0 (i0, j0)
         = v i0 j0 (f0 (i0, j0))"
proof (rule for_loop_cell [where ?i0.0 = i0])
  show "i0 < n" by (rule assms)
next
  fix i s assume "i < n" "i \<noteq> i0"
  then show "for_loop m (\<lambda>j f. f((i, j) := v i j (f (i, j)))) s (i0, j0) = s (i0, j0)"
    by (intro for_loop_frame) simp
next
  fix s
  show "for_loop m (\<lambda>j f. f((i0, j) := v i0 j (f (i0, j)))) s (i0, j0) = v i0 j0 (s (i0, j0))"
    by (rule for_loop_cell [where ?i0.0 = j0]) (use assms in simp_all)
qed

lemma block_upd_row:
  "for_loop m (\<lambda>jj f. f((a, b, ii, jj) := v jj)) f0 =
     (\<lambda>x. if fst x = a \<and> fst (snd x) = b \<and> fst (snd (snd x)) = ii \<and> snd (snd (snd x)) < m
           then v (snd (snd (snd x))) else f0 x)"
proof (induction m)
  case 0
  show ?case by (simp add: for_loop_0)
next
  case (Suc m)
  show ?case unfolding for_loop_Suc Suc by (auto simp: fun_eq_iff)
qed

lemma block_upd:
  "for_loop n (\<lambda>ii. for_loop m (\<lambda>jj f. f((a, b, ii, jj) := v ii jj))) f0 =
     (\<lambda>x. if fst x = a \<and> fst (snd x) = b \<and> fst (snd (snd x)) < n \<and> snd (snd (snd x)) < m
           then v (fst (snd (snd x))) (snd (snd (snd x))) else f0 x)"
proof (induction n)
  case 0
  show ?case by (simp add: for_loop_0)
next
  case (Suc n)
  show ?case
    by (subst for_loop_Suc, subst Suc, subst block_upd_row) (auto simp: fun_eq_iff)
qed

lemma nest4_frame:
  assumes "\<And>i ii j jj. i < n1 \<Longrightarrow> ii < n2 \<Longrightarrow> j < n3 \<Longrightarrow> jj < n4 \<Longrightarrow> key i ii j jj \<noteq> x"
  shows "for_loop n1 (\<lambda>i. for_loop n2 (\<lambda>ii. for_loop n3 (\<lambda>j. for_loop n4 (\<lambda>jj f.
           f(key i ii j jj := v i ii j jj f))))) f0 x = f0 x"
  by (intro for_loop_frame) (use assms in auto)

lemma nest4_cell:
  assumes inj: "\<And>i ii j jj. i < n1 \<Longrightarrow> ii < n2 \<Longrightarrow> j < n3 \<Longrightarrow> jj < n4 \<Longrightarrow>
                  key i ii j jj = key i0 ii0 j0 jj0 \<Longrightarrow> i = i0 \<and> ii = ii0 \<and> j = j0 \<and> jj = jj0"
    and rng: "i0 < n1" "ii0 < n2" "j0 < n3" "jj0 < n4"
  shows "for_loop n1 (\<lambda>i. for_loop n2 (\<lambda>ii. for_loop n3 (\<lambda>j. for_loop n4 (\<lambda>jj f.
           f(key i ii j jj := v i ii j jj (f (key i ii j jj))))))) f0 (key i0 ii0 j0 jj0)
         = v i0 ii0 j0 jj0 (f0 (key i0 ii0 j0 jj0))"
proof (rule for_loop_cell [where ?i0.0 = i0])
  show "i0 < n1" by (rule rng)
next
  fix i s assume "i < n1" "i \<noteq> i0"
  then show "for_loop n2 (\<lambda>ii. for_loop n3 (\<lambda>j. for_loop n4 (\<lambda>jj f.
           f(key i ii j jj := v i ii j jj (f (key i ii j jj)))))) s (key i0 ii0 j0 jj0)
         = s (key i0 ii0 j0 jj0)"
    by (intro for_loop_frame) (use inj in fastforce)
next
  fix s
  show "for_loop n2 (\<lambda>ii. for_loop n3 (\<lambda>j. for_loop n4 (\<lambda>jj f.
           f(key i0 ii j jj := v i0 ii j jj (f (key i0 ii j jj)))))) s (key i0 ii0 j0 jj0)
         = v i0 ii0 j0 jj0 (s (key i0 ii0 j0 jj0))"
  proof (rule for_loop_cell [where ?i0.0 = ii0])
    show "ii0 < n2" by (rule rng)
  next
    fix ii s assume "ii < n2" "ii \<noteq> ii0"
    then show "for_loop n3 (\<lambda>j. for_loop n4 (\<lambda>jj f.
           f(key i0 ii j jj := v i0 ii j jj (f (key i0 ii j jj))))) s (key i0 ii0 j0 jj0)
         = s (key i0 ii0 j0 jj0)"
      by (intro for_loop_frame) (use inj rng in fastforce)
  next
    fix s
    show "for_loop n3 (\<lambda>j. for_loop n4 (\<lambda>jj f.
           f(key i0 ii0 j jj := v i0 ii0 j jj (f (key i0 ii0 j jj))))) s (key i0 ii0 j0 jj0)
         = v i0 ii0 j0 jj0 (s (key i0 ii0 j0 jj0))"
    proof (rule for_loop_cell [where ?i0.0 = j0])
      show "j0 < n3" by (rule rng)
    next
      fix j s assume "j < n3" "j \<noteq> j0"
      then show "for_loop n4 (\<lambda>jj f.
           f(key i0 ii0 j jj := v i0 ii0 j jj (f (key i0 ii0 j jj)))) s (key i0 ii0 j0 jj0)
         = s (key i0 ii0 j0 jj0)"
        by (intro for_loop_frame) (use inj rng in fastforce)
    next
      fix s
      show "for_loop n4 (\<lambda>jj f.
           f(key i0 ii0 j0 jj := v i0 ii0 j0 jj (f (key i0 ii0 j0 jj)))) s (key i0 ii0 j0 jj0)
         = v i0 ii0 j0 jj0 (s (key i0 ii0 j0 jj0))"
      proof (rule for_loop_cell [where ?i0.0 = jj0])
        show "jj0 < n4" by (rule rng)
      next
        fix jj s assume "jj < n4" "jj \<noteq> jj0"
        then show "(s(key i0 ii0 j0 jj := v i0 ii0 j0 jj (s (key i0 ii0 j0 jj)))) (key i0 ii0 j0 jj0)
                   = s (key i0 ii0 j0 jj0)"
          using inj rng by fastforce
      next
        fix s
        show "(s(key i0 ii0 j0 jj0 := v i0 ii0 j0 jj0 (s (key i0 ii0 j0 jj0)))) (key i0 ii0 j0 jj0)
              = v i0 ii0 j0 jj0 (s (key i0 ii0 j0 jj0))"
          by simp
      qed
    qed
  qed
qed

lemma fold_concat_map:
  "fold f (concat (map g ws)) s = fold (\<lambda>w. fold f (g w)) ws s"
  by (induction ws arbitrary: s) simp_all

section \<open>Indices\<close>

lemma GEMM_BLOCK_pos: "0 < GEMM_BLOCK p"
  by (simp add: GEMM_BLOCK_def push_bit_eq_mult)

lemma BLOCK_SIZE_pos: "0 < BLOCK_SIZE p"
  by (simp add: BLOCK_SIZE_def push_bit_eq_mult)

lemma BLOCK_SIZE_split:
  assumes "REGISTER_BLOCK_LOG p \<le> LOCAL_MEM_BLOCK_LOG p"
  shows "BLOCK_SIZE p = MICRO_BLOCKS p * GEMM_BLOCK p"
proof -
  obtain d where d: "LOCAL_MEM_BLOCK_LOG p = REGISTER_BLOCK_LOG p + d"
    using assms le_Suc_ex by blast
  have "BLOCK_SIZE p = GEMM_BLOCK p * 2 ^ d"
    by (simp add: BLOCK_SIZE_def GEMM_BLOCK_def push_bit_eq_mult d power_add)
  then show ?thesis
    using GEMM_BLOCK_pos [of p] by (simp add: MICRO_BLOCKS_def)
qed

lemma MICRO_BLOCKS_pos_iff:
  "0 < MICRO_BLOCKS p \<longleftrightarrow> REGISTER_BLOCK_LOG p \<le> LOCAL_MEM_BLOCK_LOG p"
proof
  assume "0 < MICRO_BLOCKS p"
  then have "GEMM_BLOCK p \<le> BLOCK_SIZE p"
    by (simp add: MICRO_BLOCKS_def div_greater_zero_iff)
  then show "REGISTER_BLOCK_LOG p \<le> LOCAL_MEM_BLOCK_LOG p"
    by (simp add: BLOCK_SIZE_def GEMM_BLOCK_def push_bit_eq_mult)
next
  assume "REGISTER_BLOCK_LOG p \<le> LOCAL_MEM_BLOCK_LOG p"
  then show "0 < MICRO_BLOCKS p"
    using BLOCK_SIZE_split [of p] BLOCK_SIZE_pos [of p] by (cases "MICRO_BLOCKS p") auto
qed

lemma BLOCK_SIZE_split':
  assumes "i < MICRO_BLOCKS p"
  shows "BLOCK_SIZE p = MICRO_BLOCKS p * GEMM_BLOCK p"
proof -
  have "0 < MICRO_BLOCKS p" using assms by simp
  then show ?thesis using MICRO_BLOCKS_pos_iff BLOCK_SIZE_split by blast
qed

lemma MICRO_BLOCKS_power:
  assumes "REGISTER_BLOCK_LOG p \<le> LOCAL_MEM_BLOCK_LOG p"
  shows "MICRO_BLOCKS p = 2 ^ (LOCAL_MEM_BLOCK_LOG p - REGISTER_BLOCK_LOG p)"
  using assms
  by (simp add: MICRO_BLOCKS_def BLOCK_SIZE_def GEMM_BLOCK_def push_bit_eq_mult power_diff)


lemma and_GEMM_BLOCK: "x AND (GEMM_BLOCK p - 1) = x mod GEMM_BLOCK p"
proof -
  have "x AND (2 ^ REGISTER_BLOCK_LOG p - 1) = x mod 2 ^ REGISTER_BLOCK_LOG p"
    by (metis mask_eq_exp_minus_1 take_bit_eq_mask take_bit_eq_mod)
  then show ?thesis by (simp add: GEMM_BLOCK_def push_bit_eq_mult)
qed

lemma and_GEMM_BLOCK': "x AND (GEMM_BLOCK p - Suc 0) = x mod GEMM_BLOCK p"
  using and_GEMM_BLOCK [of x p] by simp

lemma and_MICRO_BLOCKS:
  assumes "REGISTER_BLOCK_LOG p \<le> LOCAL_MEM_BLOCK_LOG p"
  shows "x AND (MICRO_BLOCKS p - 1) = x mod MICRO_BLOCKS p"
  unfolding MICRO_BLOCKS_power [OF assms]
  by (metis mask_eq_exp_minus_1 take_bit_eq_mask take_bit_eq_mod)

lemma and_MICRO_BLOCKS':
  assumes "REGISTER_BLOCK_LOG p \<le> LOCAL_MEM_BLOCK_LOG p"
  shows "x AND (MICRO_BLOCKS p - Suc 0) = x mod MICRO_BLOCKS p"
  using and_MICRO_BLOCKS [OF assms, of x] by simp

lemma mod_square_div:
  fixes c n :: nat
  shows "(c mod (n * n)) div n = (c div n) mod n" and "(c mod (n * n)) mod n = c mod n"
proof -
  show "(c mod (n * n)) div n = (c div n) mod n"
  proof (cases "n = 0")
    case True
    then show ?thesis by simp
  next
    case False
    have "c mod (n * n) = n * (c div n mod n) + c mod n"
      by (rule mod_mult2_eq)
    then show ?thesis using False by simp
  qed
  show "(c mod (n * n)) mod n = c mod n"
    by (simp add: mod_mult2_eq)
qed

lemma mult_add_inj:
  fixes a b n :: nat
  assumes "b < n" and "b' < n" and "a * n + b = a' * n + b'"
  shows "a = a' \<and> b = b'"
proof -
  have "(a * n + b) div n = a" "(a * n + b) mod n = b"
       "(a' * n + b') div n = a'" "(a' * n + b') mod n = b'"
    using assms(1,2) by simp_all
  then show ?thesis using assms(3) by metis
qed

lemma micro_index_less:
  assumes "i < MICRO_BLOCKS p" and "ii < GEMM_BLOCK p"
  shows "i * GEMM_BLOCK p + ii < BLOCK_SIZE p"
proof -
  have "i * GEMM_BLOCK p + ii < (i + 1) * GEMM_BLOCK p" using assms(2) by simp
  also have "\<dots> \<le> MICRO_BLOCKS p * GEMM_BLOCK p"
    using assms(1) by (intro mult_le_mono1) simp
  finally show ?thesis by (simp add: BLOCK_SIZE_split' [OF assms(1)])
qed

lemma split_index:
  assumes "REGISTER_BLOCK_LOG p \<le> LOCAL_MEM_BLOCK_LOG p" and "r < BLOCK_SIZE p"
  shows "r div GEMM_BLOCK p < MICRO_BLOCKS p" and "r mod GEMM_BLOCK p < GEMM_BLOCK p"
    and "(r div GEMM_BLOCK p) * GEMM_BLOCK p + r mod GEMM_BLOCK p = r"
proof -
  have "r < MICRO_BLOCKS p * GEMM_BLOCK p"
    using assms BLOCK_SIZE_split by simp
  then show "r div GEMM_BLOCK p < MICRO_BLOCKS p"
    by (rule less_mult_imp_div_less)
  show "r mod GEMM_BLOCK p < GEMM_BLOCK p"
    using GEMM_BLOCK_pos by simp
  show "(r div GEMM_BLOCK p) * GEMM_BLOCK p + r mod GEMM_BLOCK p = r"
    by simp
qed

lemma local_index_inj:
  assumes "i < MICRO_BLOCKS p" "ii < GEMM_BLOCK p" "j < MICRO_BLOCKS p" "jj < GEMM_BLOCK p"
    and "i' < MICRO_BLOCKS p" "ii' < GEMM_BLOCK p" "j' < MICRO_BLOCKS p" "jj' < GEMM_BLOCK p"
    and "local_index p i ii j jj = local_index p i' ii' j' jj'"
  shows "i = i' \<and> ii = ii' \<and> j = j' \<and> jj = jj'"
proof -
  have c: "j * GEMM_BLOCK p + jj < BLOCK_SIZE p" "j' * GEMM_BLOCK p + jj' < BLOCK_SIZE p"
    using assms by (simp_all add: micro_index_less)
  have "(i * GEMM_BLOCK p + ii) * BLOCK_SIZE p + (j * GEMM_BLOCK p + jj) =
        (i' * GEMM_BLOCK p + ii') * BLOCK_SIZE p + (j' * GEMM_BLOCK p + jj')"
    using assms(9) by (simp add: local_index_def add.assoc)
  from mult_add_inj [OF c this]
  have "i * GEMM_BLOCK p + ii = i' * GEMM_BLOCK p + ii'"
    and "j * GEMM_BLOCK p + jj = j' * GEMM_BLOCK p + jj'" by simp_all
  then show ?thesis
    using mult_add_inj [of ii "GEMM_BLOCK p" ii' i i'] mult_add_inj [of jj "GEMM_BLOCK p" jj' j j']
      assms by simp
qed

lemma local_index_split:
  "local_index p (r div GEMM_BLOCK p) (r mod GEMM_BLOCK p) (c div GEMM_BLOCK p) (c mod GEMM_BLOCK p)
     = r * BLOCK_SIZE p + c"
  by (simp add: local_index_def add.assoc)

lemma local_index_row:
  "local_index p (m div GEMM_BLOCK p) (m mod GEMM_BLOCK p) j jj
     = m * BLOCK_SIZE p + (j * GEMM_BLOCK p + jj)"
  by (simp add: local_index_def add.assoc)

text \<open>Within the bounds of the matrix the index into it does not wrap.\<close>

lemma global_index_no_wrap:
  assumes "block_col < blocks_per_row" "block_row < blocks_per_row"
    and "(blocks_per_row * BLOCK_SIZE p) * (blocks_per_row * BLOCK_SIZE p) \<le> 2 ^ 32"
    and "i < MICRO_BLOCKS p" "ii < GEMM_BLOCK p" "j < MICRO_BLOCKS p" "jj < GEMM_BLOCK p"
  shows "global_index p block_col block_row blocks_per_row i ii j jj =
           (block_row * BLOCK_SIZE p + (i * GEMM_BLOCK p + ii)) * (blocks_per_row * BLOCK_SIZE p)
           + (block_col * BLOCK_SIZE p + (j * GEMM_BLOCK p + jj))"
    and "block_col * BLOCK_SIZE p + (j * GEMM_BLOCK p + jj) < blocks_per_row * BLOCK_SIZE p"
    and "block_row * BLOCK_SIZE p + (i * GEMM_BLOCK p + ii) < blocks_per_row * BLOCK_SIZE p"
proof -
  let ?B = "BLOCK_SIZE p" and ?N = "blocks_per_row * BLOCK_SIZE p"
  let ?r = "i * GEMM_BLOCK p + ii" and ?c = "j * GEMM_BLOCK p + jj"
  have r: "?r < ?B" and c: "?c < ?B" using assms by (simp_all add: micro_index_less)
  have "block_col * ?B + ?c < (block_col + 1) * ?B" using c by simp
  also have "\<dots> \<le> ?N" using assms(1) by (intro mult_le_mono1) simp
  finally show C: "block_col * ?B + ?c < ?N" .
  have "block_row * ?B + ?r < (block_row + 1) * ?B" using r by simp
  also have "\<dots> \<le> ?N" using assms(2) by (intro mult_le_mono1) simp
  finally show R: "block_row * ?B + ?r < ?N" .
  have "(block_row * ?B + ?r) * ?N + (block_col * ?B + ?c) < (block_row * ?B + ?r + 1) * ?N"
    using C by simp
  also have "\<dots> \<le> ?N * ?N" using R by (intro mult_le_mono1) simp
  finally have lt: "(block_row * ?B + ?r) * ?N + (block_col * ?B + ?c) < 2 ^ 32"
    using assms(3) by simp
  have eq: "block_col * ?B + (block_row * ?B + i * GEMM_BLOCK p + ii) * ?B * blocks_per_row
       + j * GEMM_BLOCK p + jj = (block_row * ?B + ?r) * ?N + (block_col * ?B + ?c)"
    by (simp add: algebra_simps)
  show "global_index p block_col block_row blocks_per_row i ii j jj =
           (block_row * ?B + ?r) * ?N + (block_col * ?B + ?c)"
    unfolding global_index_def eq using lt by (rule mod_less)
qed

lemma global_index_inj:
  assumes "block_col < blocks_per_row" "block_row < blocks_per_row"
    and "block_col' < blocks_per_row" "block_row' < blocks_per_row"
    and "(blocks_per_row * BLOCK_SIZE p) * (blocks_per_row * BLOCK_SIZE p) \<le> 2 ^ 32"
    and "i < MICRO_BLOCKS p" "ii < GEMM_BLOCK p" "j < MICRO_BLOCKS p" "jj < GEMM_BLOCK p"
    and "i' < MICRO_BLOCKS p" "ii' < GEMM_BLOCK p" "j' < MICRO_BLOCKS p" "jj' < GEMM_BLOCK p"
    and "global_index p block_col block_row blocks_per_row i ii j jj =
         global_index p block_col' block_row' blocks_per_row i' ii' j' jj'"
  shows "block_col = block_col' \<and> block_row = block_row'
         \<and> i = i' \<and> ii = ii' \<and> j = j' \<and> jj = jj'"
proof -
  let ?B = "BLOCK_SIZE p" and ?N = "blocks_per_row * BLOCK_SIZE p"
  note a = global_index_no_wrap [OF assms(1,2,5,6,7,8,9)]
  note b = global_index_no_wrap [OF assms(3,4,5,10,11,12,13)]
  have "(block_row * ?B + (i * GEMM_BLOCK p + ii)) * ?N + (block_col * ?B + (j * GEMM_BLOCK p + jj))
      = (block_row' * ?B + (i' * GEMM_BLOCK p + ii')) * ?N + (block_col' * ?B + (j' * GEMM_BLOCK p + jj'))"
    using assms(14) a(1) b(1) by simp
  from mult_add_inj [OF a(2) b(2) this]
  have R: "block_row * ?B + (i * GEMM_BLOCK p + ii) = block_row' * ?B + (i' * GEMM_BLOCK p + ii')"
    and C: "block_col * ?B + (j * GEMM_BLOCK p + jj) = block_col' * ?B + (j' * GEMM_BLOCK p + jj')"
    by simp_all
  have "block_row = block_row' \<and> i * GEMM_BLOCK p + ii = i' * GEMM_BLOCK p + ii'"
    by (rule mult_add_inj [OF _ _ R]) (use assms in \<open>simp_all add: micro_index_less\<close>)
  moreover have "block_col = block_col' \<and> j * GEMM_BLOCK p + jj = j' * GEMM_BLOCK p + jj'"
    by (rule mult_add_inj [OF _ _ C]) (use assms in \<open>simp_all add: micro_index_less\<close>)
  ultimately show ?thesis
    using mult_add_inj [of ii "GEMM_BLOCK p" ii' i i'] mult_add_inj [of jj "GEMM_BLOCK p" jj' j j']
      assms by simp
qed

lemma global_index_split:
  "global_index p block_col block_row blocks_per_row
     (r div GEMM_BLOCK p) (r mod GEMM_BLOCK p) (c div GEMM_BLOCK p) (c mod GEMM_BLOCK p)
     = (block_col * BLOCK_SIZE p + (block_row * BLOCK_SIZE p + r) * BLOCK_SIZE p * blocks_per_row + c)
         mod 2 ^ 32"
  by (simp add: global_index_def add.assoc)

lemma global_index_block:
  "global_index p block_col block_row blocks_per_row i ii j jj
   = (block_col * BLOCK_SIZE p
       + (block_row * BLOCK_SIZE p + (i * GEMM_BLOCK p + ii)) * BLOCK_SIZE p * blocks_per_row
       + (j * GEMM_BLOCK p + jj)) mod 2 ^ 32"
  by (simp add: global_index_def add.assoc)

section \<open>The example inputs, evaluated\<close>

lemma cfg22: "GEMM_BLOCK cfg22 = 2" "MICRO_BLOCKS cfg22 = 1" "BLOCK_SIZE cfg22 = 2"
  by (simp_all add: cfg22_def MICRO_BLOCKS_def BLOCK_SIZE_def GEMM_BLOCK_def)

lemma matrix22_block:
  "matrix22 (global_index cfg22 0 0 1 0 0 0 0) = 2"
  "matrix22 (global_index cfg22 0 0 1 0 0 0 1) = 1"
  "matrix22 (global_index cfg22 0 0 1 0 1 0 0) = 1"
  "matrix22 (global_index cfg22 0 0 1 0 1 0 1) = 3"
  by (simp_all add: matrix22_def global_index_def cfg22)

lemma cfg21:
  "GEMM_BLOCK cfg21 = 1" "MICRO_BLOCKS cfg21 = 2" "BLOCK_SIZE cfg21 = 2"
  "REGISTER_BLOCK_LOG cfg21 \<le> LOCAL_MEM_BLOCK_LOG cfg21"
  by (simp_all add: cfg21_def MICRO_BLOCKS_def BLOCK_SIZE_def GEMM_BLOCK_def)

section \<open>The micro-step of the diagonal factorizer: what it computes\<close>

lemma lu_block_line1:
  "for_loop n (\<lambda>i line. if i > step then line(i := line i * c) else line) l0 =
     (\<lambda>i. if i < n \<and> step < i then l0 i * c else l0 i)"
  by (induction n) (auto simp: for_loop_0 for_loop_Suc fun_eq_iff)

lemma lu_block_rows:
  "for_loop n (\<lambda>j out. if j \<noteq> step then for_loop m (\<lambda>i out. out((j, i) := v j i)) out
                        else for_loop m (\<lambda>i out. out((j, i) := w i)) out) out0 =
   (\<lambda>x. if fst x < n \<and> snd x < m
         then (if fst x \<noteq> step then v (fst x) (snd x) else w (snd x)) else out0 x)"
  by (induction n) (auto simp: for_loop_0 for_loop_Suc for_loop_upd_row fun_eq_iff)

text \<open>The scaled pivot row that the micro-step holds in \<^verbatim>\<open>line\<close>.\<close>

lemma lu_block_row:
  assumes "s < GEMM_BLOCK p" and "i < GEMM_BLOCK p"
  shows "lu_block p u A s out0 (s, i) =
           (if i = s then - 1 / A (s, s)
            else if i > s then A (s, i) * (- 1 / A (s, s))
            else A (s, i))"
  using assms
  unfolding lu_block_def Let_def for_loop_upd lu_block_line1 lu_block_rows
  by simp

lemma lu_block_other:
  assumes "s < GEMM_BLOCK p" and "i < GEMM_BLOCK p" and "j < GEMM_BLOCK p" and "j \<noteq> s"
  shows "lu_block p u A s out0 (j, i) =
           (if i > s \<and> j > s then A (j, i) + lu_block p u A s out0 (s, i) * A (j, s)
            else A (j, i))"
  using assms
  unfolding lu_block_def Let_def for_loop_upd lu_block_line1 lu_block_rows
  by simp

lemma lu_block_outside:
  assumes "\<not> (j < GEMM_BLOCK p \<and> i < GEMM_BLOCK p)"
  shows "lu_block p u A s out0 (j, i) = out0 (j, i)"
  using assms
  unfolding lu_block_def Let_def for_loop_upd lu_block_line1 lu_block_rows
  by auto

text \<open>
  Claim C1. For every step \<open>s\<close> and all positions \<open>(j, i)\<close> of a micro-block, the
  micro-step writes: in row \<open>s\<close> the negative reciprocal of the pivot on the diagonal, the
  entries right of the diagonal scaled by it and the entries left of it unchanged; in
  every other row \<open>j\<close> the entry plus the scaled pivot-row entry times \<open>A[j][s]\<close> where
  both \<open>i > s\<close> and \<open>j > s\<close>, and the entry unchanged elsewhere.
\<close>

theorem lu_block_step:
  assumes "s < GEMM_BLOCK p" and "i < GEMM_BLOCK p" and "j < GEMM_BLOCK p"
  shows "lu_block p u A s out0 (j, i) =
           (if j = s then
              (if i = s then - 1 / A (s, s)
               else if i > s then A (s, i) * (- 1 / A (s, s))
               else A (s, i))
            else if i > s \<and> j > s then A (j, i) + lu_block p u A s out0 (s, i) * A (j, s)
            else A (j, i))"
  using assms lu_block_row [of s p i u A out0] lu_block_other [of s p i j u A out0]
  by (cases "j = s") simp_all

theorem lu_block_step_witness:
  "lu_block cfg22 0 (\<lambda>x. if fst x = snd x then 2 else 1) 0 (\<lambda>_. 0) (1, 1) = (3 / 2 :: real)"
  using lu_block_step [of 0 cfg22 1 1 "0::real" "\<lambda>x. if fst x = snd x then 2 else 1" "\<lambda>_. 0"]
    lu_block_step [of 0 cfg22 1 0 "0::real" "\<lambda>x. if fst x = snd x then 2 else 1" "\<lambda>_. 0"]
  by (simp add: cfg22)

text \<open>
  Claim C7. The micro-step has no pivot check: for every micro-block the diagonal entry
  of row \<open>s\<close> becomes the plain quotient \<open>- 1 / A[s][s]\<close>, and when the pivot is zero the
  quotient \<open>- 1 / 0\<close> is stored and used to scale the row and to update the rows below,
  with no other branch taken. (The function is total and has no error result because
  the source has no error path; what \<open>- 1 / 0\<close> evaluates to is left to the element
  type.)
\<close>

theorem lu_block_unguarded_division:
  assumes "s < GEMM_BLOCK p"
  shows "lu_block p u A s out0 (s, s) = - 1 / A (s, s)
         \<and> (A (s, s) = 0 \<longrightarrow>
              lu_block p u A s out0 (s, s) = - 1 / 0
              \<and> (\<forall>i. s < i \<and> i < GEMM_BLOCK p \<longrightarrow>
                    lu_block p u A s out0 (s, i) = A (s, i) * (- 1 / 0))
              \<and> (\<forall>i j. s < i \<and> i < GEMM_BLOCK p \<and> s < j \<and> j < GEMM_BLOCK p \<longrightarrow>
                    lu_block p u A s out0 (j, i) = A (j, i) + A (s, i) * (- 1 / 0) * A (j, s)))"
  using assms by (simp add: lu_block_row lu_block_other)

theorem lu_block_unguarded_division_witness:
  "lu_block \<lparr>LOCAL_MEM_BLOCK_LOG = 1, REGISTER_BLOCK_LOG = 1\<rparr> 0
     (\<lambda>x. if x = (0, 0) then 0 else 1) 0 (\<lambda>_. 0) (0, 0) = (- 1 / 0 :: real)
   \<and> lu_block \<lparr>LOCAL_MEM_BLOCK_LOG = 1, REGISTER_BLOCK_LOG = 1\<rparr> 0
     (\<lambda>x. if x = (0, 0) then 0 else 1) 0 (\<lambda>_. 0) (0, 1) = (1::real) * (- 1 / 0)
   \<and> lu_block \<lparr>LOCAL_MEM_BLOCK_LOG = 1, REGISTER_BLOCK_LOG = 1\<rparr> 0
     (\<lambda>x. if x = (0, 0) then 0 else 1) 0 (\<lambda>_. 0) (1, 1) = (1::real) + 1 * (- 1 / 0) * 1"
  using lu_block_unguarded_division [of 0 "\<lparr>LOCAL_MEM_BLOCK_LOG = 1, REGISTER_BLOCK_LOG = 1\<rparr>"
      "0::real" "\<lambda>x. if x = (0, 0) then 0 else 1" "\<lambda>_. 0"]
  by (simp add: GEMM_BLOCK_def)

section \<open>The lu kernel never reads an uninitialised top_input\<close>












section \<open>The is_first_block argument\<close>

text \<open>
  Claim C10. Two runs of \<open>top_update\<close>, or of \<open>left_update\<close>, that differ only in the
  value passed for \<^verbatim>\<open>is_first_block\<close> write the same matrix and the same
  \<^verbatim>\<open>top_block\<close>, respectively \<^verbatim>\<open>left_block\<close>.
\<close>

theorem update_kernels_ignore_is_first_block:
  "top_update p u a top_block lu_t first1 block_col block_row blocks_per_row =
   top_update p u a top_block lu_t first2 block_col block_row blocks_per_row
   \<and> left_update p u a left_block lu_g first1 block_col block_row blocks_per_row =
     left_update p u a left_block lu_g first2 block_col block_row blocks_per_row"
  by (simp add: top_update_def left_update_def)

section \<open>The row propagator writes below the rows it has finished\<close>

lemma top_col_iter_frame:
  assumes "i \<noteq> gk div GEMM_BLOCK p"
  shows "top_a_buffer (top_col_iter p u lu_t gk col st) (i, j, ii, jj) =
         top_a_buffer st (i, j, ii, jj)"
  using assms
  by (simp add: top_col_iter_def Let_def for_loop_upd_other)

lemma top_cols_frame:
  assumes "i \<noteq> gk div GEMM_BLOCK p"
  shows "top_a_buffer (for_loop n (top_col_iter p u lu_t gk) st) (i, j, ii, jj) =
         top_a_buffer st (i, j, ii, jj)"
  by (rule for_loop_invariant
        [where I = "\<lambda>_ s. top_a_buffer s (i, j, ii, jj) = top_a_buffer st (i, j, ii, jj)"])
     (simp_all add: top_col_iter_frame [OF assms])

lemma top_rows_update_frame:
  assumes "i < k"
  shows "top_rows_update p u k lu_col cur_row a_buf (i, j, ii, jj) = a_buf (i, j, ii, jj)"
  unfolding top_rows_update_def Let_def
  using assms
  by (intro for_loop_frame) simp

text \<open>
  Claim C4. A micro-step \<open>gk\<close> of the row propagator leaves every entry of the local
  block buffer in a micro-block row above \<open>k = gk / GEMM_BLOCK\<close> as it was: it writes
  only to micro-block rows with index at least \<open>k\<close>.
\<close>

theorem top_step_finalized_rows:
  assumes "i < gk div GEMM_BLOCK p"
  shows "top_step p u lu_t gk a_buf (i, j, ii, jj) = a_buf (i, j, ii, jj)"
  using assms
  by (simp add: top_step_def Let_def top_rows_update_frame top_cols_frame)

theorem top_step_finalized_rows_witness:
  "top_step \<lparr>LOCAL_MEM_BLOCK_LOG = 1, REGISTER_BLOCK_LOG = 0\<rparr> (0::real) (\<lambda>_. 2) 1
     (\<lambda>x. if fst x = 0 then 3 else 4) (0, 1, 0, 0) = 3"
  using top_step_finalized_rows [of 0 1 "\<lparr>LOCAL_MEM_BLOCK_LOG = 1, REGISTER_BLOCK_LOG = 0\<rparr>"
      "0::real" "\<lambda>_. 2" "\<lambda>x. if fst x = 0 then 3 else 4" 1 0 0]
  by (simp add: GEMM_BLOCK_def)

section \<open>What the store loops write\<close>

lemma store_local_cell:
  assumes "i < MICRO_BLOCKS p" "ii < GEMM_BLOCK p" "j < MICRO_BLOCKS p" "jj < GEMM_BLOCK p"
  shows "store_local p a_buf blk (local_index p i ii j jj) = a_buf (i, j, ii, jj)"
  unfolding store_local_def
  by (rule nest4_cell [where v = "\<lambda>i ii j jj _. a_buf (i, j, ii, jj)"])
     (use assms local_index_inj in blast)+

lemma store_local_trans_cell:
  assumes "i < MICRO_BLOCKS p" "ii < GEMM_BLOCK p" "j < MICRO_BLOCKS p" "jj < GEMM_BLOCK p"
  shows "store_local_trans p a_buf blk (local_index p i ii j jj) = a_buf (j, i, jj, ii)"
  unfolding store_local_trans_def
  by (rule nest4_cell [where v = "\<lambda>i ii j jj _. a_buf (j, i, jj, ii)"])
     (use assms local_index_inj in blast)+

lemma store_block_cell:
  assumes "block_col < blocks_per_row" "block_row < blocks_per_row"
    and "(blocks_per_row * BLOCK_SIZE p) * (blocks_per_row * BLOCK_SIZE p) \<le> 2 ^ 32"
    and "i < MICRO_BLOCKS p" "ii < GEMM_BLOCK p" "j < MICRO_BLOCKS p" "jj < GEMM_BLOCK p"
  shows "store_block p a_buf block_col block_row blocks_per_row a
           (global_index p block_col block_row blocks_per_row i ii j jj) = a_buf (i, j, ii, jj)"
  unfolding store_block_def
  by (rule nest4_cell [where v = "\<lambda>i ii j jj _. a_buf (i, j, ii, jj)"])
     (use assms global_index_inj [OF assms(1,2,1,2,3)] in blast)+

section \<open>The three outputs of the lu kernel\<close>

text \<open>
  Claim C5. For a well-formed configuration and a block inside a matrix whose indices fit
  the 32-bit index arithmetic, the three outputs of the lu kernel agree: at every
  position \<open>(r, c)\<close> of the block the matrix \<^verbatim>\<open>a\<close> holds what \<^verbatim>\<open>a_block\<close> holds, and
  \<^verbatim>\<open>a_block_trans[r * BLOCK_SIZE + c] = a_block[c * BLOCK_SIZE + r]\<close>.
\<close>

theorem lu_outputs_agree:
  assumes "REGISTER_BLOCK_LOG p \<le> LOCAL_MEM_BLOCK_LOG p"
    and "block_col < blocks_per_row" and "block_row < blocks_per_row"
    and "(blocks_per_row * BLOCK_SIZE p) * (blocks_per_row * BLOCK_SIZE p) \<le> 2 ^ 32"
    and "r < BLOCK_SIZE p" and "c < BLOCK_SIZE p"
    and "lu p u top_junk a a_block_trans a_block block_col block_row blocks_per_row =
           (a', a_block_trans', a_block')"
  shows "a' ((block_col * BLOCK_SIZE p
               + (block_row * BLOCK_SIZE p + r) * BLOCK_SIZE p * blocks_per_row + c) mod 2 ^ 32)
           = a_block' (r * BLOCK_SIZE p + c)
         \<and> a_block_trans' (r * BLOCK_SIZE p + c) = a_block' (c * BLOCK_SIZE p + r)"
proof -
  let ?G = "GEMM_BLOCK p"
  let ?st = "lu_loop p u top_junk a block_col block_row blocks_per_row"
  note r = split_index [OF assms(1,5)] and c = split_index [OF assms(1,6)]
  have a': "a' = store_block p (a_buffer ?st) block_col block_row blocks_per_row a"
    and t': "a_block_trans' = store_local_trans p (a_buffer ?st) a_block_trans"
    and b': "a_block' = store_local p (a_buffer ?st) a_block"
    using assms(7) by (simp_all add: lu_def Let_def)
  have "a' (global_index p block_col block_row blocks_per_row
              (r div ?G) (r mod ?G) (c div ?G) (c mod ?G))
        = a_buffer ?st (r div ?G, c div ?G, r mod ?G, c mod ?G)"
    unfolding a' by (rule store_block_cell [OF assms(2,3,4) r(1,2) c(1,2)])
  moreover have "a_block' (local_index p (r div ?G) (r mod ?G) (c div ?G) (c mod ?G))
        = a_buffer ?st (r div ?G, c div ?G, r mod ?G, c mod ?G)"
    unfolding b' by (rule store_local_cell [OF r(1,2) c(1,2)])
  moreover have "a_block_trans' (local_index p (r div ?G) (r mod ?G) (c div ?G) (c mod ?G))
        = a_buffer ?st (c div ?G, r div ?G, c mod ?G, r mod ?G)"
    unfolding t' by (rule store_local_trans_cell [OF r(1,2) c(1,2)])
  moreover have "a_block' (local_index p (c div ?G) (c mod ?G) (r div ?G) (r mod ?G))
        = a_buffer ?st (c div ?G, r div ?G, c mod ?G, r mod ?G)"
    unfolding b' by (rule store_local_cell [OF c(1,2) r(1,2)])
  ultimately show ?thesis
    by (simp add: local_index_split global_index_split)
qed

theorem lu_outputs_agree_witness:
  "fst (lu cfg22 0 (\<lambda>_ _ _. 0) matrix22 (\<lambda>_. 0) (\<lambda>_. 0) 0 0 1)
     ((0 * BLOCK_SIZE cfg22 + (0 * BLOCK_SIZE cfg22 + 0) * BLOCK_SIZE cfg22 * 1 + 1) mod 2 ^ 32)
   = snd (snd (lu cfg22 0 (\<lambda>_ _ _. 0) matrix22 (\<lambda>_. 0) (\<lambda>_. 0) 0 0 1))
       (0 * BLOCK_SIZE cfg22 + 1)
   \<and> fst (snd (lu cfg22 0 (\<lambda>_ _ _. 0) matrix22 (\<lambda>_. 0) (\<lambda>_. 0) 0 0 1))
       (0 * BLOCK_SIZE cfg22 + 1)
     = snd (snd (lu cfg22 0 (\<lambda>_ _ _. 0) matrix22 (\<lambda>_. 0) (\<lambda>_. 0) 0 0 1))
       (1 * BLOCK_SIZE cfg22 + 0)"
proof -
  have c: "REGISTER_BLOCK_LOG cfg22 \<le> LOCAL_MEM_BLOCK_LOG cfg22" "BLOCK_SIZE cfg22 = 2"
    by (simp_all add: cfg22_def BLOCK_SIZE_def)
  have fit: "(1 * BLOCK_SIZE cfg22) * (1 * BLOCK_SIZE cfg22) \<le> 2 ^ 32"
    and r: "0 < BLOCK_SIZE cfg22" and cc: "1 < BLOCK_SIZE cfg22"
    by (simp_all add: c)
  show ?thesis
    by (rule lu_outputs_agree [OF c(1) _ _ fit r cc]) simp_all
qed

section \<open>The diagonal micro-blocks of the lu kernel\<close>

text \<open>The micro-step reads its input block only inside the micro-block.\<close>

lemma lu_block_cong:
  assumes "s < GEMM_BLOCK p" and "i < GEMM_BLOCK p" and "j < GEMM_BLOCK p"
    and "\<And>x. fst x < GEMM_BLOCK p \<Longrightarrow> snd x < GEMM_BLOCK p \<Longrightarrow> A x = B x"
  shows "lu_block p u A s out0 (j, i) = lu_block p u B s out1 (j, i)"
proof -
  have row: "lu_block p u A s out0 (s, i') = lu_block p u B s out1 (s, i')"
    if "i' < GEMM_BLOCK p" for i'
    using assms(1,4) that by (simp add: lu_block_row)
  show ?thesis
  proof (cases "j = s")
    case True
    then show ?thesis using row assms(2) by simp
  next
    case False
    then show ?thesis
      using assms row [OF assms(2)] by (simp add: lu_block_other)
  qed
qed

lemma lu_pipeline_body_a_buffer:
  "a_buffer (lu_pipeline_body p u t k kk r c ttj j ti i st) x =
     (if fst x = i \<and> fst (snd x) = j \<and> fst (snd (snd x)) < GEMM_BLOCK p
          \<and> snd (snd (snd x)) < GEMM_BLOCK p
      then a_buffer (lu_pipeline_body p u t k kk r c ttj j ti i st) x
      else a_buffer st x)"
  by (simp add: lu_pipeline_body_def Let_def block_upd)

lemma lu_pipeline_iter_frame:
  assumes "i0 < k \<or> (i0 = k \<and> j0 = k)"
  shows "a_buffer (lu_pipeline_iter p u t k kk r c ttj st) (i0, j0, ii, jj) =
         a_buffer st (i0, j0, ii, jj)"
proof -
  have "\<not> (i0 = pipeline_i p k ttj \<and> j0 = pipeline_j p ttj)"
    if "k \<le> pipeline_ti p k ttj"
    using assms that by (auto simp: pipeline_i_def)
  then show ?thesis
    unfolding lu_pipeline_iter_def Let_def
    using lu_pipeline_body_a_buffer [of p u t k kk r c ttj "pipeline_j p ttj" "pipeline_ti p k ttj"
        "pipeline_i p k ttj" st "(i0, j0, ii, jj)"]
    by auto
qed

lemma lu_pipeline_frame:
  assumes "i0 < k \<or> (i0 = k \<and> j0 = k)"
  shows "a_buffer (for_loop n (\<lambda>ttj. lu_pipeline_iter p u (t ttj) k kk r c ttj) st) (i0, j0, ii, jj)
         = a_buffer st (i0, j0, ii, jj)"
  by (rule for_loop_invariant
        [where I = "\<lambda>_ s. a_buffer s (i0, j0, ii, jj) = a_buffer st (i0, j0, ii, jj)"])
     (simp_all add: lu_pipeline_iter_frame [OF assms])

text \<open>A step of the kernel applies one micro-step to the diagonal micro-block it is at.\<close>

lemma lu_step_diag:
  assumes "ii < GEMM_BLOCK p" and "jj < GEMM_BLOCK p"
  shows "a_buffer (lu_step p u top_junk gk st) (gk div GEMM_BLOCK p, gk div GEMM_BLOCK p, ii, jj) =
         lu_block p u (\<lambda>x. a_buffer st (gk div GEMM_BLOCK p, gk div GEMM_BLOCK p, fst x, snd x))
           (gk mod GEMM_BLOCK p) (\<lambda>_. u) (ii, jj)"
proof -
  have kk: "gk mod GEMM_BLOCK p < GEMM_BLOCK p" using GEMM_BLOCK_pos by simp
  have "lu_block p u
          (for_loop (GEMM_BLOCK p) (\<lambda>ii. for_loop (GEMM_BLOCK p) (\<lambda>jj m.
             m((ii, jj) := a_buffer st (gk div GEMM_BLOCK p, gk div GEMM_BLOCK p, ii, jj))))
             (\<lambda>_. u))
          (gk mod GEMM_BLOCK p) (\<lambda>_. u) (ii, jj)
        = lu_block p u (\<lambda>x. a_buffer st (gk div GEMM_BLOCK p, gk div GEMM_BLOCK p, fst x, snd x))
           (gk mod GEMM_BLOCK p) (\<lambda>_. u) (ii, jj)"
    by (rule lu_block_cong [OF kk assms(2,1)]) (simp add: nest2_upd)
  then show ?thesis
    using assms
    by (simp add: lu_step_def Let_def and_GEMM_BLOCK' lu_pipeline_frame block_upd)
qed

text \<open>A step leaves the micro-block rows above the one it is at alone.\<close>

lemma lu_step_frame:
  assumes "i0 < gk div GEMM_BLOCK p"
  shows "a_buffer (lu_step p u top_junk gk st) (i0, j0, ii, jj) = a_buffer st (i0, j0, ii, jj)"
  using assms
  by (simp add: lu_step_def Let_def lu_pipeline_frame block_upd)

lemma lu_steps_later_frame:
  assumes "\<And>gk. gk \<in> set gks \<Longrightarrow> i0 < gk div GEMM_BLOCK p"
  shows "a_buffer (fold (lu_step p u top_junk) gks st) (i0, j0, ii, jj) = a_buffer st (i0, j0, ii, jj)"
  using assms
proof (induction gks arbitrary: st)
  case Nil
  show ?case by simp
next
  case (Cons gk gks)
  then show ?case by (simp add: lu_step_frame)
qed

lemma lu_steps_diag:
  assumes "n \<le> GEMM_BLOCK p" and "ii < GEMM_BLOCK p" and "jj < GEMM_BLOCK p"
  shows "a_buffer (fold (lu_step p u top_junk) [k * GEMM_BLOCK p..<k * GEMM_BLOCK p + n] st)
           (k, k, ii, jj)
         = lu_steps p u (\<lambda>x. a_buffer st (k, k, fst x, snd x)) n (ii, jj)"
  using assms
proof (induction n arbitrary: ii jj)
  case 0
  show ?case by simp
next
  case (Suc n)
  let ?G = "GEMM_BLOCK p"
  let ?s = "fold (lu_step p u top_junk) [k * ?G..<k * ?G + n] st"
  have n: "n < ?G" using Suc.prems(1) by simp
  have d: "(k * ?G + n) div ?G = k" and m: "(k * ?G + n) mod ?G = n"
    using n by simp_all
  have "a_buffer (lu_step p u top_junk (k * ?G + n) ?s) (k, k, ii, jj)
        = lu_block p u (\<lambda>x. a_buffer ?s (k, k, fst x, snd x)) n (\<lambda>_. u) (ii, jj)"
    using lu_step_diag [OF Suc.prems(2,3), of u top_junk "k * ?G + n" ?s]
    unfolding d m .
  also have "\<dots> = lu_block p u (lu_steps p u (\<lambda>x. a_buffer st (k, k, fst x, snd x)) n) n
                     (\<lambda>_. u) (ii, jj)"
  proof (rule lu_block_cong [OF n Suc.prems(3,2)])
    fix x :: "nat \<times> nat"
    assume "fst x < ?G" "snd x < ?G"
    then show "a_buffer ?s (k, k, fst x, snd x)
               = lu_steps p u (\<lambda>x. a_buffer st (k, k, fst x, snd x)) n x"
      using Suc.IH [of "fst x" "snd x"] n by simp
  qed
  finally show ?case by simp
qed

text \<open>
  What the kernel leaves in the diagonal micro-block \<open>k\<close> of its local buffer: all
  \<open>GEMM_BLOCK\<close> micro-steps applied to what the micro-block held when the outer loop
  reached it.
\<close>

lemma lu_loop_diag:
  assumes "k < MICRO_BLOCKS p" and "ii < GEMM_BLOCK p" and "jj < GEMM_BLOCK p"
  shows "a_buffer (for_loop (BLOCK_SIZE p) (lu_step p u top_junk) st0) (k, k, ii, jj)
         = lu_steps p u
             (\<lambda>x. a_buffer (for_loop (k * GEMM_BLOCK p) (lu_step p u top_junk) st0)
                     (k, k, fst x, snd x))
             (GEMM_BLOCK p) (ii, jj)"
proof -
  let ?G = "GEMM_BLOCK p"
  let ?step = "lu_step p u top_junk"
  have B: "BLOCK_SIZE p = MICRO_BLOCKS p * ?G" by (rule BLOCK_SIZE_split' [OF assms(1)])
  have "(k + 1) * ?G \<le> MICRO_BLOCKS p * ?G"
    using assms(1) by (intro mult_le_mono1) simp
  then have le: "k * ?G + ?G \<le> BLOCK_SIZE p" by (simp add: B)
  have 1: "for_loop (BLOCK_SIZE p) ?step st0
           = fold ?step [k * ?G + ?G..<BLOCK_SIZE p] (for_loop (k * ?G + ?G) ?step st0)"
    by (rule for_loop_split [OF le])
  have 2: "for_loop (k * ?G + ?G) ?step st0
           = fold ?step [k * ?G..<k * ?G + ?G] (for_loop (k * ?G) ?step st0)"
    by (rule for_loop_split) simp
  have later: "k < gk div ?G" if "gk \<in> set [k * ?G + ?G..<BLOCK_SIZE p]" for gk
  proof -
    have "(k + 1) * ?G \<le> gk" using that by simp
    then have "k + 1 \<le> gk div ?G"
      using GEMM_BLOCK_pos [of p] by (simp add: less_eq_div_iff_mult_less_eq)
    then show ?thesis by simp
  qed
  have "a_buffer (for_loop (BLOCK_SIZE p) ?step st0) (k, k, ii, jj)
        = a_buffer (for_loop (k * ?G + ?G) ?step st0) (k, k, ii, jj)"
    unfolding 1 by (rule lu_steps_later_frame) (rule later)
  also have "\<dots> = lu_steps p u
             (\<lambda>x. a_buffer (for_loop (k * ?G) ?step st0) (k, k, fst x, snd x)) ?G (ii, jj)"
    unfolding 2 by (rule lu_steps_diag [OF _ assms(2,3)]) simp
  finally show ?thesis .
qed

text \<open>The last micro-step only replaces the last pivot by its negative reciprocal.\<close>

lemma lu_steps_last:
  assumes "ii < GEMM_BLOCK p" and "jj < GEMM_BLOCK p"
  shows "lu_steps p u A (GEMM_BLOCK p) (ii, jj) =
           (if ii = GEMM_BLOCK p - 1 \<and> jj = GEMM_BLOCK p - 1
            then - 1 / lu_steps p u A (GEMM_BLOCK p - 1) (GEMM_BLOCK p - 1, GEMM_BLOCK p - 1)
            else lu_steps p u A (GEMM_BLOCK p - 1) (ii, jj))"
proof -
  obtain g where g: "GEMM_BLOCK p = Suc g"
    using GEMM_BLOCK_pos [of p] by (cases "GEMM_BLOCK p") auto
  have "g < GEMM_BLOCK p" by (simp add: g)
  then show ?thesis
    using assms lu_block_row [of g p jj u "lu_steps p u A g" "\<lambda>_. u"]
      lu_block_other [of g p jj ii u "lu_steps p u A g" "\<lambda>_. u"]
    by (cases "ii = g") (auto simp: g)
qed

lemma load_block_cell:
  assumes "i < MICRO_BLOCKS p" "ii < GEMM_BLOCK p" "j < MICRO_BLOCKS p" "jj < GEMM_BLOCK p"
  shows "load_block p a block_col block_row blocks_per_row buf0 (i, j, ii, jj)
         = a (global_index p block_col block_row blocks_per_row i ii j jj)"
  unfolding load_block_def
  by (rule nest4_cell [where key = "\<lambda>i ii j jj. (i, j, ii, jj)"
        and v = "\<lambda>i ii j jj _. a (global_index p block_col block_row blocks_per_row i ii j jj)"])
     (use assms in simp_all)

lemma lu_commit:
  assumes "k < MICRO_BLOCKS p" and "ii < GEMM_BLOCK p" and "jj < GEMM_BLOCK p"
  shows "snd (snd (lu p u top_junk a a_block_trans a_block block_col block_row blocks_per_row))
           (local_index p k ii k jj)
         = lu_steps p u
             (\<lambda>x. a_buffer (for_loop (k * GEMM_BLOCK p) (lu_step p u top_junk)
                               (lu_init p u a block_col block_row blocks_per_row))
                     (k, k, fst x, snd x))
             (GEMM_BLOCK p) (ii, jj)"
  using assms
  by (simp add: lu_def Let_def store_local_cell lu_loop_def lu_loop_diag)

text \<open>
  Claim C3, as amended. For every diagonal micro-block \<open>k\<close>, the lu kernel commits to
  \<^verbatim>\<open>a_block\<close> the result of all \<open>GEMM_BLOCK\<close> micro-steps \<open>s = 0, \<dots>, GEMM_BLOCK - 1\<close>,
  applied to what the micro-block held when the outer loop reached it. The result after
  the first \<open>GEMM_BLOCK - 1\<close> micro-steps agrees with it in every entry but the last
  diagonal one, which the last micro-step replaces by its negative reciprocal.
\<close>

theorem lu_commits_all_micro_steps:
  assumes "k < MICRO_BLOCKS p" and "ii < GEMM_BLOCK p" and "jj < GEMM_BLOCK p"
  shows "snd (snd (lu p u top_junk a a_block_trans a_block block_col block_row blocks_per_row))
           (local_index p k ii k jj)
         = lu_steps p u
             (\<lambda>x. a_buffer (for_loop (k * GEMM_BLOCK p) (lu_step p u top_junk)
                               (lu_init p u a block_col block_row blocks_per_row))
                     (k, k, fst x, snd x))
             (GEMM_BLOCK p) (ii, jj)
       \<and> lu_steps p u A (GEMM_BLOCK p) (ii, jj) =
           (if ii = GEMM_BLOCK p - 1 \<and> jj = GEMM_BLOCK p - 1
            then - 1 / lu_steps p u A (GEMM_BLOCK p - 1) (GEMM_BLOCK p - 1, GEMM_BLOCK p - 1)
            else lu_steps p u A (GEMM_BLOCK p - 1) (ii, jj))"
  by (intro conjI) (rule lu_commit [OF assms], rule lu_steps_last [OF assms(2,3)])

theorem lu_commits_all_micro_steps_witness:
  "snd (snd (lu cfg22 0 (\<lambda>_ _ _. 0) matrix22 (\<lambda>_. 0) (\<lambda>_. 0) 0 0 1)) (local_index cfg22 0 1 0 1)
     = lu_steps cfg22 0
         (\<lambda>x. a_buffer (for_loop (0 * GEMM_BLOCK cfg22) (lu_step cfg22 0 (\<lambda>_ _ _. 0))
                           (lu_init cfg22 0 matrix22 0 0 1)) (0, 0, fst x, snd x))
         (GEMM_BLOCK cfg22) (1, 1)
   \<and> lu_steps cfg22 0 (\<lambda>x. matrix22 (global_index cfg22 0 0 1 0 (fst x) 0 (snd x)))
       (GEMM_BLOCK cfg22) (1, 1)
     = - 1 / lu_steps cfg22 0 (\<lambda>x. matrix22 (global_index cfg22 0 0 1 0 (fst x) 0 (snd x)))
              (GEMM_BLOCK cfg22 - 1) (GEMM_BLOCK cfg22 - 1, GEMM_BLOCK cfg22 - 1)"
  using lu_commits_all_micro_steps [of 0 cfg22 1 1 0 "\<lambda>_ _ _. 0" matrix22 "\<lambda>_. 0" "\<lambda>_. 0" 0 0 1
      "\<lambda>x. matrix22 (global_index cfg22 0 0 1 0 (fst x) 0 (snd x))"]
  by (simp add: cfg22)

text \<open>
  The micro-block after \<open>GEMM_BLOCK - 1\<close> micro-steps is not what the kernel commits: for
  the matrix with rows \<open>(2, 1)\<close> and \<open>(1, 3)\<close> the kernel stores \<open>- 2 / 5\<close> in the last
  diagonal entry, and one micro-step leaves \<open>5 / 2\<close> there.
\<close>

theorem lu_commit_counterexample:
  "snd (snd (lu cfg22 0 (\<lambda>_ _ _. 0) matrix22 (\<lambda>_. 0) (\<lambda>_. 0) 0 0 1)) (local_index cfg22 0 1 0 1)
   \<noteq> lu_steps cfg22 0 (\<lambda>x. matrix22 (global_index cfg22 0 0 1 0 (fst x) 0 (snd x)))
       (GEMM_BLOCK cfg22 - 1) (1, 1)"
proof -
  let ?A = "\<lambda>x. a_buffer (lu_init cfg22 0 matrix22 0 0 1) (0, 0, fst x, snd x)"
  let ?B = "\<lambda>x. matrix22 (global_index cfg22 0 0 1 0 (fst x) 0 (snd x))"
  have AB: "?A x = ?B x" if "fst x < GEMM_BLOCK cfg22" "snd x < GEMM_BLOCK cfg22" for x
    using that load_block_cell [of 0 cfg22 "fst x" 0 "snd x" matrix22 0 0 1 "\<lambda>_. 0"]
    by (simp add: lu_init_def cfg22(2))
  have one: "(1::nat) < GEMM_BLOCK cfg22" and zero: "(0::nat) < GEMM_BLOCK cfg22"
    by (simp_all add: cfg22)
  have "lu_block cfg22 0 ?B 0 (\<lambda>_. 0) (0, 1) = - (1 / 2)"
    using lu_block_row [OF zero one, of 0 ?B "\<lambda>_. 0"] matrix22_block by simp
  then have s1: "lu_steps cfg22 0 ?B (Suc 0) (1, 1) = 5 / 2"
    using lu_block_other [OF zero one one, of 0 ?B "\<lambda>_. 0"] matrix22_block by simp
  have s1A: "lu_steps cfg22 0 ?A (Suc 0) (1, 1) = lu_steps cfg22 0 ?B (Suc 0) (1, 1)"
    using lu_block_cong [OF zero one one AB, of "\<lambda>x. x" 0 "\<lambda>_. 0" "\<lambda>_. 0"] by simp
  have "snd (snd (lu cfg22 0 (\<lambda>_ _ _. 0) matrix22 (\<lambda>_. 0) (\<lambda>_. 0) 0 0 1)) (local_index cfg22 0 1 0 1)
        = lu_steps cfg22 0 ?A (GEMM_BLOCK cfg22) (1, 1)"
    using lu_commit [of 0 cfg22 1 1 0 "\<lambda>_ _ _. 0" matrix22 "\<lambda>_. 0" "\<lambda>_. 0" 0 0 1]
    by (simp add: cfg22 for_loop_0)
  also have "\<dots> = - 1 / lu_steps cfg22 0 ?A (Suc 0) (1, 1)"
    using lu_steps_last [OF one one, of 0 ?A] by (simp add: cfg22)
  also have "\<dots> = - 2 / 5"
    unfolding s1A s1 by simp
  finally have "snd (snd (lu cfg22 0 (\<lambda>_ _ _. 0) matrix22 (\<lambda>_. 0) (\<lambda>_. 0) 0 0 1))
                  (local_index cfg22 0 1 0 1) = - 2 / 5" .
  moreover have "lu_steps cfg22 0 ?B (GEMM_BLOCK cfg22 - 1) (1, 1) = 5 / 2"
    using s1 by (simp add: cfg22)
  ultimately show ?thesis by simp
qed

section \<open>A failed setup is terminal\<close>

text \<open>
  A run whose result dump raises is caught by the handler of \<open>executeBenchmark\<close>, which
  reports the error and returns false.
\<close>

lemma executeBenchmark_dump_raises:
  assumes "benchmark_setup_succeeded bm" and "executionSettings bm = Some s"
    and "\<not> testOnly s" and "skipValidation s" and "dumpfilePath s \<noteq> []"
    and "mpi_comm_rank bm = 0"
    and "generateInputData_ok e" and "executeKernel_ok e" and "collectResults_ok e"
    and "\<not> dumpConfigurationAndResults_ok e"
  shows "\<exists>bm'. executeBenchmark e bm = Inr (False, bm')
           \<and> trace bm' = trace bm @ [PrintStart, CallGenerateInputData, CallExecuteKernel,
                 CallCollectResults, CallDumpConfigurationAndResults, ErrExecutionFailed]"
  using assms by (simp add: executeBenchmark_def execute_try_def log_event_def Let_def)

lemma executeBenchmark_without_setup:
  assumes "\<not> benchmark_setup_succeeded bm"
  shows "executeBenchmark e bm = Inr (False, log_event ErrExecutionWithoutSetup bm)"
  using assms by (simp add: executeBenchmark_def)

lemma executeBenchmark_calls_without_setup:
  assumes "\<not> benchmark_setup_succeeded bm"
  shows "executeBenchmark_calls es bm =
           Inr (replicate (length es) False,
                bm\<lparr>trace := trace bm @ replicate (length es) ErrExecutionWithoutSetup\<rparr>)"
  using assms
proof (induction es arbitrary: bm)
  case Nil
  then show ?case by simp
next
  case (Cons e es)
  have "\<not> benchmark_setup_succeeded (log_event ErrExecutionWithoutSetup bm)"
    using Cons.prems by (simp add: log_event_def)
  from Cons.IH [OF this] show ?case
    using Cons.prems
    by (simp add: executeBenchmark_without_setup log_event_def replicate_append_same)
qed

lemma setup_try_check_failed:
  assumes "testOnly s \<or> (selectFPGADevice_ok e \<and> fpgaSetup_ok e)"
    and "mpi_comm_rank bm = 0"
    and "\<not> checkInputParameters e"
  shows "setup_try e s bm =
           Inl (bm\<lparr>executionSettings := Some s,
                   trace := trace bm
                     @ (if testOnly s then [] else [CallSelectFPGADevice, CallFpgaSetup])
                     @ [CallCheckInputParameters, ErrInputParameterCheckFailed]\<rparr>)"
  using assms by (auto simp: setup_try_def log_event_def Let_def)

text \<open>
  Claim C8. When the input-parameter check fails during setup, \<open>setupBenchmark\<close> calls
  the check once, reports the error, returns false and leaves the setup flag unset,
  without a kernel having run; every later call of \<open>executeBenchmark\<close> returns false
  and does nothing but report that the setup did not succeed.
\<close>

theorem setup_failure_is_terminal:
  assumes "parseProgramParameters e = Parsed s"
    and "testOnly s \<or> (selectFPGADevice_ok e \<and> fpgaSetup_ok e)"
    and "mpi_comm_rank bm = 0"
    and "\<not> checkInputParameters e"
  shows "\<exists>bm'. setupBenchmark e bm = Inr (False, bm')
           \<and> \<not> benchmark_setup_succeeded bm'
           \<and> trace bm' = trace bm
                 @ (if testOnly s then [] else [CallSelectFPGADevice, CallFpgaSetup])
                 @ [CallCheckInputParameters, ErrInputParameterCheckFailed, ErrSetupFailed]
           \<and> (\<forall>es. \<exists>bm''. executeBenchmark_calls es bm' = Inr (replicate (length es) False, bm'')
                  \<and> \<not> benchmark_setup_succeeded bm''
                  \<and> trace bm'' = trace bm' @ replicate (length es) ErrExecutionWithoutSetup)"
proof -
  let ?bm' = "bm\<lparr>executionSettings := Some s,
                 trace := trace bm
                   @ (if testOnly s then [] else [CallSelectFPGADevice, CallFpgaSetup])
                   @ [CallCheckInputParameters, ErrInputParameterCheckFailed, ErrSetupFailed],
                 benchmark_setup_succeeded := False\<rparr>"
  have 1: "setupBenchmark e bm = Inr (False, ?bm')"
    using assms(1) setup_try_check_failed [OF assms(2,3,4)]
    by (simp add: setupBenchmark_def log_event_def)
  have 2: "\<not> benchmark_setup_succeeded ?bm'" by simp
  show ?thesis
    using 1 executeBenchmark_calls_without_setup [OF 2] by (intro exI [of _ ?bm']) simp
qed

theorem setup_failure_is_terminal_witness:
  "\<exists>bm'. setupBenchmark
          \<lparr>parseProgramParameters =
             Parsed \<lparr>testOnly = False, skipValidation = False, dumpfilePath = []\<rparr>,
           selectFPGADevice_ok = True, fpgaSetup_ok = True, checkInputParameters = False,
           generateInputData_ok = True, executeKernel_ok = True, validateOutput = Some True,
           printError_ok = True, collectResults_ok = True,
           dumpConfigurationAndResults_ok = True, printResults_ok = True\<rparr>
          \<lparr>benchmark_setup_succeeded = False, executionSettings = None, mpi_comm_rank = 0,
           validated = False, trace = []\<rparr> = Inr (False, bm')
        \<and> \<not> benchmark_setup_succeeded bm'
        \<and> trace bm' = [CallSelectFPGADevice, CallFpgaSetup, CallCheckInputParameters,
                        ErrInputParameterCheckFailed, ErrSetupFailed]
        \<and> (\<forall>es. \<exists>bm''. executeBenchmark_calls es bm' = Inr (replicate (length es) False, bm'')
               \<and> \<not> benchmark_setup_succeeded bm''
               \<and> trace bm'' = trace bm' @ replicate (length es) ErrExecutionWithoutSetup)"
  using setup_failure_is_terminal
    [of "\<lparr>parseProgramParameters =
             Parsed \<lparr>testOnly = False, skipValidation = False, dumpfilePath = []\<rparr>,
           selectFPGADevice_ok = True, fpgaSetup_ok = True, checkInputParameters = False,
           generateInputData_ok = True, executeKernel_ok = True, validateOutput = Some True,
           printError_ok = True, collectResults_ok = True,
           dumpConfigurationAndResults_ok = True, printResults_ok = True\<rparr>"
        "\<lparr>testOnly = False, skipValidation = False, dumpfilePath = []\<rparr>"
        "\<lparr>benchmark_setup_succeeded = False, executionSettings = None, mpi_comm_rank = 0,
           validated = False, trace = []\<rparr>"]
  by simp

section \<open>The trailing-submatrix update of one block\<close>

text \<open>The accumulation of one micro-block product into one entry.\<close>

lemma result_sub_cell:
  assumes "i < g" and "j < g" and "0 < n"
  shows "for_loop n (\<lambda>k. for_loop g (\<lambda>i. for_loop g (\<lambda>j rs.
             rs((i, j) := (if k > 0 then rs (i, j) else a0 i j) + l (k, i) * t (k, j))))) rs0 (i, j)
         = for_loop n (\<lambda>k acc. acc + l (k, i) * t (k, j)) (a0 i j)"
  using assms(3)
proof (induction n)
  case 0
  then show ?case by simp
next
  case (Suc n)
  let ?body = "\<lambda>k. for_loop g (\<lambda>i. for_loop g (\<lambda>j rs.
             rs((i, j) := (if k > 0 then rs (i, j) else a0 i j) + l (k, i) * t (k, j))))"
  have step: "?body n rs (i, j) = (if n > 0 then rs (i, j) else a0 i j) + l (n, i) * t (n, j)" for rs
    by (rule nest2_cell
          [where v = "\<lambda>i j x. (if n > 0 then x else a0 i j) + l (n, i) * t (n, j)", OF assms(1,2)])
  have "for_loop (Suc n) ?body rs0 (i, j) = ?body n (for_loop n ?body rs0) (i, j)"
    by (simp only: for_loop_Suc)
  also have "\<dots> = (if n > 0 then for_loop n ?body rs0 (i, j) else a0 i j) + l (n, i) * t (n, j)"
    by (rule step)
  also have "\<dots> = for_loop (Suc n) (\<lambda>k acc. acc + l (k, i) * t (k, j)) (a0 i j)"
  proof (cases "n = 0")
    case True
    then show ?thesis by (simp add: for_loop_Suc for_loop_0)
  next
    case False
    then have IH: "for_loop n ?body rs0 (i, j)
                   = for_loop n (\<lambda>k acc. acc + l (k, i) * t (k, j)) (a0 i j)"
      using Suc.IH by blast
    show ?thesis unfolding IH using False by (simp add: for_loop_Suc)
  qed
  finally show ?case .
qed

lemma inner_block_update_cell:
  assumes "i < GEMM_BLOCK p" and "j < GEMM_BLOCK p"
  shows "inner_block_update p u top_buf left_buf mcol row curr_col a_buf (row, curr_col, i, j)
         = for_loop (GEMM_BLOCK p)
             (\<lambda>k acc. acc + left_buf (mcol, row, k, i) * top_buf (mcol, curr_col, k, j))
             (a_buf (row, curr_col, i, j))"
proof -
  let ?G = "GEMM_BLOCK p"
  let ?l = "for_loop ?G (\<lambda>i. for_loop ?G (\<lambda>j m. m((i, j) := left_buf (mcol, row, i, j)))) (\<lambda>_. u)"
  let ?t = "for_loop ?G (\<lambda>i. for_loop ?G (\<lambda>j m. m((i, j) := top_buf (mcol, curr_col, i, j)))) (\<lambda>_. u)"
  have "inner_block_update p u top_buf left_buf mcol row curr_col a_buf (row, curr_col, i, j)
        = for_loop ?G (\<lambda>k acc. acc + ?l (k, i) * ?t (k, j)) (a_buf (row, curr_col, i, j))"
    using assms
    by (simp add: inner_block_update_def Let_def block_upd
          result_sub_cell [where ?a0.0 = "\<lambda>i j. a_buf (row, curr_col, i, j)", OF assms GEMM_BLOCK_pos])
  also have "\<dots> = for_loop ?G
             (\<lambda>k acc. acc + left_buf (mcol, row, k, i) * top_buf (mcol, curr_col, k, j))
             (a_buf (row, curr_col, i, j))"
    by (rule for_loop_cong) (use assms in \<open>simp add: nest2_upd\<close>)
  finally show ?thesis .
qed

lemma inner_block_update_frame:
  assumes "\<not> (fst x = row \<and> fst (snd x) = curr_col
              \<and> fst (snd (snd x)) < GEMM_BLOCK p \<and> snd (snd (snd x)) < GEMM_BLOCK p)"
  shows "inner_block_update p u top_buf left_buf mcol row curr_col a_buf x = a_buf x"
  using assms by (auto simp: inner_block_update_def Let_def block_upd)

lemma inner_iter_decode:
  assumes "REGISTER_BLOCK_LOG p \<le> LOCAL_MEM_BLOCK_LOG p"
  shows "inner_iter p u top_buf left_buf =
           (\<lambda>c. inner_block_update p u top_buf left_buf
             (c div (MICRO_BLOCKS p * MICRO_BLOCKS p))
             ((c mod (MICRO_BLOCKS p * MICRO_BLOCKS p)) div MICRO_BLOCKS p)
             ((c mod (MICRO_BLOCKS p * MICRO_BLOCKS p)) mod MICRO_BLOCKS p))"
  by (simp add: inner_iter_def Let_def and_MICRO_BLOCKS' [OF assms] fun_eq_iff mod_square_div)

lemma inner_loop_nest:
  assumes "REGISTER_BLOCK_LOG p \<le> LOCAL_MEM_BLOCK_LOG p"
  shows "for_loop (MICRO_BLOCKS p * MICRO_BLOCKS p * MICRO_BLOCKS p)
           (inner_iter p u top_buf left_buf) a_buf
         = for_loop (MICRO_BLOCKS p) (\<lambda>mcol.
             for_loop (MICRO_BLOCKS p) (\<lambda>row.
               for_loop (MICRO_BLOCKS p) (\<lambda>curr_col.
                 inner_block_update p u top_buf left_buf mcol row curr_col))) a_buf"
proof -
  let ?n = "MICRO_BLOCKS p"
  let ?F = "\<lambda>mcol rest. inner_block_update p u top_buf left_buf mcol (rest div ?n) (rest mod ?n)"
  have "for_loop (?n * ?n * ?n) (inner_iter p u top_buf left_buf) a_buf
        = for_loop (?n * (?n * ?n)) (\<lambda>c. ?F (c div (?n * ?n)) (c mod (?n * ?n))) a_buf"
    by (simp add: inner_iter_decode [OF assms] mult.assoc)
  also have "\<dots> = for_loop ?n (\<lambda>mcol. for_loop (?n * ?n) (?F mcol)) a_buf"
    by (rule for_loop_flatten)
  also have "\<dots> = for_loop ?n (\<lambda>mcol. for_loop ?n (\<lambda>row. for_loop ?n (\<lambda>curr_col.
                      inner_block_update p u top_buf left_buf mcol row curr_col))) a_buf"
  proof (rule for_loop_cong)
    fix mcol s
    show "for_loop (?n * ?n) (?F mcol) s
          = for_loop ?n (\<lambda>row. for_loop ?n (\<lambda>curr_col.
              inner_block_update p u top_buf left_buf mcol row curr_col)) s"
      by (rule for_loop_flatten)
  qed
  finally show ?thesis .
qed

text \<open>One pass over all micro-blocks, for one micro-block row \<open>mcol\<close> of the operands.\<close>

lemma inner_pass_cell:
  assumes "row < MICRO_BLOCKS p" "curr_col < MICRO_BLOCKS p" "i < GEMM_BLOCK p" "j < GEMM_BLOCK p"
  shows "for_loop (MICRO_BLOCKS p) (\<lambda>row.
           for_loop (MICRO_BLOCKS p) (\<lambda>curr_col.
             inner_block_update p u top_buf left_buf mcol row curr_col)) a_buf (row, curr_col, i, j)
         = for_loop (GEMM_BLOCK p)
             (\<lambda>k acc. acc + left_buf (mcol, row, k, i) * top_buf (mcol, curr_col, k, j))
             (a_buf (row, curr_col, i, j))"
proof (rule for_loop_cell [where ?i0.0 = row])
  show "row < MICRO_BLOCKS p" by (rule assms)
next
  fix r s assume "r < MICRO_BLOCKS p" "r \<noteq> row"
  then show "for_loop (MICRO_BLOCKS p)
               (\<lambda>curr_col. inner_block_update p u top_buf left_buf mcol r curr_col) s
               (row, curr_col, i, j) = s (row, curr_col, i, j)"
    by (intro for_loop_frame) (simp add: inner_block_update_frame)
next
  fix s
  show "for_loop (MICRO_BLOCKS p)
          (\<lambda>curr_col. inner_block_update p u top_buf left_buf mcol row curr_col) s
          (row, curr_col, i, j)
        = for_loop (GEMM_BLOCK p)
            (\<lambda>k acc. acc + left_buf (mcol, row, k, i) * top_buf (mcol, curr_col, k, j))
            (s (row, curr_col, i, j))"
    by (rule for_loop_cell [where ?i0.0 = curr_col])
       (use assms in \<open>simp_all add: inner_block_update_frame inner_block_update_cell\<close>)
qed

text \<open>The whole update loop, seen from one entry of the local block buffer.\<close>

lemma inner_loop_cell:
  assumes "REGISTER_BLOCK_LOG p \<le> LOCAL_MEM_BLOCK_LOG p"
    and "row < MICRO_BLOCKS p" "curr_col < MICRO_BLOCKS p" "i < GEMM_BLOCK p" "j < GEMM_BLOCK p"
  shows "for_loop (MICRO_BLOCKS p * MICRO_BLOCKS p * MICRO_BLOCKS p)
           (inner_iter p u top_buf left_buf) a_buf (row, curr_col, i, j)
         = for_loop (BLOCK_SIZE p)
             (\<lambda>m acc. acc + left_buf (m div GEMM_BLOCK p, row, m mod GEMM_BLOCK p, i)
                            * top_buf (m div GEMM_BLOCK p, curr_col, m mod GEMM_BLOCK p, j))
             (a_buf (row, curr_col, i, j))"
proof -
  let ?h = "\<lambda>mcol k acc. acc + left_buf (mcol, row, k, i) * top_buf (mcol, curr_col, k, j)"
  have "for_loop (MICRO_BLOCKS p * MICRO_BLOCKS p * MICRO_BLOCKS p)
           (inner_iter p u top_buf left_buf) a_buf (row, curr_col, i, j)
        = for_loop (MICRO_BLOCKS p) (\<lambda>mcol. for_loop (GEMM_BLOCK p) (?h mcol))
            (a_buf (row, curr_col, i, j))"
    unfolding inner_loop_nest [OF assms(1)]
    by (rule for_loop_pointwise) (rule inner_pass_cell [OF assms(2-5)])
  also have "\<dots> = for_loop (MICRO_BLOCKS p * GEMM_BLOCK p)
                     (\<lambda>m. ?h (m div GEMM_BLOCK p) (m mod GEMM_BLOCK p))
                     (a_buf (row, curr_col, i, j))"
    by (rule for_loop_flatten [symmetric])
  finally show ?thesis by (simp add: BLOCK_SIZE_split [OF assms(1)])
qed

lemma inner_loop_frame:
  assumes "REGISTER_BLOCK_LOG p \<le> LOCAL_MEM_BLOCK_LOG p"
    and "\<not> (fst (snd (snd x)) < GEMM_BLOCK p \<and> snd (snd (snd x)) < GEMM_BLOCK p)"
  shows "for_loop (MICRO_BLOCKS p * MICRO_BLOCKS p * MICRO_BLOCKS p)
           (inner_iter p u top_buf left_buf) a_buf x = a_buf x"
  unfolding inner_loop_nest [OF assms(1)]
  by (intro for_loop_frame) (use assms(2) in \<open>simp add: inner_block_update_frame\<close>)

lemma inner_load_a:
  "inner_a_buffer (inner_load p a left_g top_g block_col block_row blocks_per_row st)
   = load_block p a block_col block_row blocks_per_row (inner_a_buffer st)"
  unfolding inner_load_def load_block_def
  by (intro for_loop_proj) (simp add: Let_def)

lemma inner_load_top:
  "inner_top_buffer (inner_load p a left_g top_g block_col block_row blocks_per_row st)
   = for_loop (MICRO_BLOCKS p) (\<lambda>i. for_loop (GEMM_BLOCK p) (\<lambda>ii.
       for_loop (MICRO_BLOCKS p) (\<lambda>j. for_loop (GEMM_BLOCK p) (\<lambda>jj buf.
         buf((i, j, ii, jj) := top_g (local_index p i ii j jj)))))) (inner_top_buffer st)"
  unfolding inner_load_def
  by (intro for_loop_proj) (simp add: Let_def)

lemma inner_load_left:
  "inner_left_buffer (inner_load p a left_g top_g block_col block_row blocks_per_row st)
   = for_loop (MICRO_BLOCKS p) (\<lambda>i. for_loop (GEMM_BLOCK p) (\<lambda>ii.
       for_loop (MICRO_BLOCKS p) (\<lambda>j. for_loop (GEMM_BLOCK p) (\<lambda>jj buf.
         buf((i, j, ii, jj) := left_g (local_index p i ii j jj)))))) (inner_left_buffer st)"
  unfolding inner_load_def
  by (intro for_loop_proj) (simp add: Let_def)

lemma inner_load_top_cell:
  assumes "i < MICRO_BLOCKS p" "ii < GEMM_BLOCK p" "j < MICRO_BLOCKS p" "jj < GEMM_BLOCK p"
  shows "inner_top_buffer (inner_load p a left_g top_g block_col block_row blocks_per_row st)
           (i, j, ii, jj) = top_g (local_index p i ii j jj)"
  unfolding inner_load_top
  by (rule nest4_cell [where key = "\<lambda>i ii j jj. (i, j, ii, jj)"
        and v = "\<lambda>i ii j jj _. top_g (local_index p i ii j jj)"])
     (use assms in simp_all)

lemma inner_load_left_cell:
  assumes "i < MICRO_BLOCKS p" "ii < GEMM_BLOCK p" "j < MICRO_BLOCKS p" "jj < GEMM_BLOCK p"
  shows "inner_left_buffer (inner_load p a left_g top_g block_col block_row blocks_per_row st)
           (i, j, ii, jj) = left_g (local_index p i ii j jj)"
  unfolding inner_load_left
  by (rule nest4_cell [where key = "\<lambda>i ii j jj. (i, j, ii, jj)"
        and v = "\<lambda>i ii j jj _. left_g (local_index p i ii j jj)"])
     (use assms in simp_all)

text \<open>
  The kernel, seen from one entry of the block: the products of the entries of column
  \<open>i * GEMM_BLOCK + ii\<close> of the left buffer and column \<open>j * GEMM_BLOCK + jj\<close> of the top
  buffer are added to it, row by row.
\<close>

lemma inner_update_mm_cell:
  assumes "REGISTER_BLOCK_LOG p \<le> LOCAL_MEM_BLOCK_LOG p"
    and "block_col < blocks_per_row" "block_row < blocks_per_row"
    and "(blocks_per_row * BLOCK_SIZE p) * (blocks_per_row * BLOCK_SIZE p) \<le> 2 ^ 32"
    and "i < MICRO_BLOCKS p" "ii < GEMM_BLOCK p" "j < MICRO_BLOCKS p" "jj < GEMM_BLOCK p"
  shows "inner_update_mm p u replica a left_g top_g block_col block_row blocks_per_row
           (global_index p block_col block_row blocks_per_row i ii j jj)
         = for_loop (BLOCK_SIZE p)
             (\<lambda>m acc. acc + left_g (m * BLOCK_SIZE p + (i * GEMM_BLOCK p + ii))
                            * top_g (m * BLOCK_SIZE p + (j * GEMM_BLOCK p + jj)))
             (a (global_index p block_col block_row blocks_per_row i ii j jj))"
proof -
  let ?st = "inner_load p a left_g top_g block_col block_row blocks_per_row
               \<lparr>inner_a_buffer = (\<lambda>_. u), inner_top_buffer = (\<lambda>_. u),
                inner_left_buffer = (\<lambda>_. u)\<rparr>"
  let ?G = "GEMM_BLOCK p"
  have "inner_update_mm p u replica a left_g top_g block_col block_row blocks_per_row
           (global_index p block_col block_row blocks_per_row i ii j jj)
        = for_loop (MICRO_BLOCKS p * MICRO_BLOCKS p * MICRO_BLOCKS p)
            (inner_iter p u (inner_top_buffer ?st) (inner_left_buffer ?st))
            (inner_a_buffer ?st) (i, j, ii, jj)"
    by (simp add: inner_update_mm_def Let_def store_block_cell [OF assms(2-8)])
  also have "\<dots> = for_loop (BLOCK_SIZE p)
             (\<lambda>m acc. acc + inner_left_buffer ?st (m div ?G, i, m mod ?G, ii)
                            * inner_top_buffer ?st (m div ?G, j, m mod ?G, jj))
             (inner_a_buffer ?st (i, j, ii, jj))"
    by (rule inner_loop_cell [OF assms(1,5,7,6,8)])
  also have "\<dots> = for_loop (BLOCK_SIZE p)
             (\<lambda>m acc. acc + left_g (m * BLOCK_SIZE p + (i * ?G + ii))
                            * top_g (m * BLOCK_SIZE p + (j * ?G + jj)))
             (inner_a_buffer ?st (i, j, ii, jj))"
  proof (rule for_loop_cong)
    fix m acc assume "m < BLOCK_SIZE p"
    note m = split_index [OF assms(1) this]
    show "acc + inner_left_buffer ?st (m div ?G, i, m mod ?G, ii)
                * inner_top_buffer ?st (m div ?G, j, m mod ?G, jj)
          = acc + left_g (m * BLOCK_SIZE p + (i * ?G + ii))
                  * top_g (m * BLOCK_SIZE p + (j * ?G + jj))"
      by (simp add: inner_load_left_cell [OF m(1,2) assms(5,6)]
            inner_load_top_cell [OF m(1,2) assms(7,8)] local_index_row)
  qed
  finally show ?thesis
    by (simp add: inner_load_a load_block_cell [OF assms(5-8)])
qed

lemma inner_update_mm_frame:
  assumes "\<And>i ii j jj. i < MICRO_BLOCKS p \<Longrightarrow> ii < GEMM_BLOCK p \<Longrightarrow> j < MICRO_BLOCKS p \<Longrightarrow>
             jj < GEMM_BLOCK p \<Longrightarrow> global_index p block_col block_row blocks_per_row i ii j jj \<noteq> x"
  shows "inner_update_mm p u replica a left_g top_g block_col block_row blocks_per_row x = a x"
  unfolding inner_update_mm_def Let_def store_block_def
  by (rule nest4_frame) (use assms in blast)

lemma inner_update_mm_entry:
  assumes "REGISTER_BLOCK_LOG p \<le> LOCAL_MEM_BLOCK_LOG p"
    and "block_col < blocks_per_row" and "block_row < blocks_per_row"
    and "(blocks_per_row * BLOCK_SIZE p) * (blocks_per_row * BLOCK_SIZE p) \<le> 2 ^ 32"
    and "r < BLOCK_SIZE p" and "c < BLOCK_SIZE p"
  shows "inner_update_mm p u replica a left_g top_g block_col block_row blocks_per_row
           ((block_col * BLOCK_SIZE p
              + (block_row * BLOCK_SIZE p + r) * BLOCK_SIZE p * blocks_per_row + c) mod 2 ^ 32)
         = for_loop (BLOCK_SIZE p)
             (\<lambda>m acc. acc + left_g (m * BLOCK_SIZE p + r) * top_g (m * BLOCK_SIZE p + c))
             (a ((block_col * BLOCK_SIZE p
                   + (block_row * BLOCK_SIZE p + r) * BLOCK_SIZE p * blocks_per_row + c) mod 2 ^ 32))"
proof -
  note r = split_index [OF assms(1,5)] and c = split_index [OF assms(1,6)]
  show ?thesis
    using inner_update_mm_cell [OF assms(1-4) r(1,2) c(1,2), of u replica a left_g top_g]
    by (simp add: global_index_split)
qed

lemma inner_update_mm_outside:
  assumes "\<And>r c. r < BLOCK_SIZE p \<Longrightarrow> c < BLOCK_SIZE p \<Longrightarrow>
             x \<noteq> (block_col * BLOCK_SIZE p
                    + (block_row * BLOCK_SIZE p + r) * BLOCK_SIZE p * blocks_per_row + c) mod 2 ^ 32"
  shows "inner_update_mm p u replica a left_g top_g block_col block_row blocks_per_row x = a x"
proof (rule inner_update_mm_frame)
  fix i ii j jj
  assume "i < MICRO_BLOCKS p" "ii < GEMM_BLOCK p" "j < MICRO_BLOCKS p" "jj < GEMM_BLOCK p"
  then have "i * GEMM_BLOCK p + ii < BLOCK_SIZE p" "j * GEMM_BLOCK p + jj < BLOCK_SIZE p"
    by (simp_all add: micro_index_less)
  from assms [OF this] show "global_index p block_col block_row blocks_per_row i ii j jj \<noteq> x"
    by (simp add: global_index_block)
qed

text \<open>
  Claim C2, as amended. For a block inside the matrix, the kernel adds to every entry
  \<open>(r, c)\<close> of the block the products \<open>left[m][r] * top[m][c]\<close> for
  \<open>m = 0, \<dots>, BLOCK_SIZE - 1\<close>, in this order, where \<open>left\<close> and \<open>top\<close> are the two
  block buffers it is given; it leaves every entry of the matrix outside the block as it
  was, and it returns nothing but the matrix.
\<close>

theorem inner_update_mm_adds_products:
  assumes "REGISTER_BLOCK_LOG p \<le> LOCAL_MEM_BLOCK_LOG p"
    and "block_col < blocks_per_row" and "block_row < blocks_per_row"
    and "(blocks_per_row * BLOCK_SIZE p) * (blocks_per_row * BLOCK_SIZE p) \<le> 2 ^ 32"
  shows "(r < BLOCK_SIZE p \<and> c < BLOCK_SIZE p \<longrightarrow>
            inner_update_mm p u replica a left_g top_g block_col block_row blocks_per_row
              ((block_col * BLOCK_SIZE p
                 + (block_row * BLOCK_SIZE p + r) * BLOCK_SIZE p * blocks_per_row + c) mod 2 ^ 32)
            = for_loop (BLOCK_SIZE p)
                (\<lambda>m acc. acc + left_g (m * BLOCK_SIZE p + r) * top_g (m * BLOCK_SIZE p + c))
                (a ((block_col * BLOCK_SIZE p
                      + (block_row * BLOCK_SIZE p + r) * BLOCK_SIZE p * blocks_per_row + c)
                    mod 2 ^ 32)))
         \<and> ((\<forall>r' c'. r' < BLOCK_SIZE p \<and> c' < BLOCK_SIZE p \<longrightarrow>
                x \<noteq> (block_col * BLOCK_SIZE p
                       + (block_row * BLOCK_SIZE p + r') * BLOCK_SIZE p * blocks_per_row + c')
                     mod 2 ^ 32) \<longrightarrow>
            inner_update_mm p u replica a left_g top_g block_col block_row blocks_per_row x = a x)"
  using inner_update_mm_entry [OF assms, of r c u replica a left_g top_g]
    inner_update_mm_outside [of p x block_col block_row blocks_per_row u replica a left_g top_g]
  by blast

text \<open>The entries of block \<open>(1, 1)\<close> of a matrix of 2 x 2 blocks do not include entry 0.\<close>

lemma block11_outside:
  "\<forall>r' c'. r' < BLOCK_SIZE cfg21 \<and> c' < BLOCK_SIZE cfg21 \<longrightarrow>
     0 \<noteq> (1 * BLOCK_SIZE cfg21 + (1 * BLOCK_SIZE cfg21 + r') * BLOCK_SIZE cfg21 * 2 + c') mod 2 ^ 32"
proof (intro allI impI)
  fix r' c' :: nat
  assume "r' < BLOCK_SIZE cfg21 \<and> c' < BLOCK_SIZE cfg21"
  then have b: "r' < 2" "c' < 2" by (simp_all add: cfg21)
  then have "(2 + (2 + r') * 2 * 2 + c') < (2::nat) ^ 32" by simp
  then have "(2 + (2 + r') * 2 * 2 + c') mod 2 ^ 32 = 2 + (2 + r') * 2 * 2 + c'"
    by (rule mod_less)
  then show "0 \<noteq> (1 * BLOCK_SIZE cfg21 + (1 * BLOCK_SIZE cfg21 + r') * BLOCK_SIZE cfg21 * 2 + c') mod 2 ^ 32"
    by (simp add: cfg21)
qed

theorem inner_update_mm_adds_products_witness:
  "inner_update_mm cfg21 0 0 matrix44 left_block4 top_block4 1 1 2 14 = 39
   \<and> inner_update_mm cfg21 0 0 matrix44 left_block4 top_block4 1 1 2 0 = matrix44 0"
  using inner_update_mm_adds_products
      [of cfg21 1 2 1 1 0 0 0 matrix44 left_block4 top_block4 0] block11_outside
  by (simp add: cfg21 for_loop_2 matrix44_def left_block4_def top_block4_def)

text \<open>
  The kernel does not subtract. Block \<open>(1, 1)\<close> is the trailing block of step 0 of a
  matrix of 2 x 2 blocks; its entry \<open>(0, 0)\<close> is entry 10 of the matrix and holds 4. With
  the left buffer \<open>1, 2, 3, 4\<close> and the top buffer \<open>5, 6, 7, 8\<close> the kernel leaves
  \<open>4 + 1 * 5 + 3 * 7 = 30\<close> there. The claim asks for \<open>4 - 1 * 5 = - 1\<close>, the product
  subtracted over \<open>GEMM_BLOCK = 1\<close> rows; subtracting over all \<open>BLOCK_SIZE = 2\<close> rows gives
  \<open>- 22\<close>, and adding over \<open>GEMM_BLOCK\<close> rows only gives \<open>9\<close>.
\<close>

theorem inner_update_mm_sign_counterexample:
  "global_index cfg21 1 1 2 0 0 0 0 = 10
   \<and> inner_update_mm cfg21 0 0 matrix44 left_block4 top_block4 1 1 2 10 = 30
   \<and> inner_update_mm cfg21 0 0 matrix44 left_block4 top_block4 1 1 2 10
       \<noteq> matrix44 10 - (\<Sum>m<GEMM_BLOCK cfg21.
                          left_block4 (m * BLOCK_SIZE cfg21) * top_block4 (m * BLOCK_SIZE cfg21))
   \<and> inner_update_mm cfg21 0 0 matrix44 left_block4 top_block4 1 1 2 10
       \<noteq> matrix44 10 - (\<Sum>m<BLOCK_SIZE cfg21.
                          left_block4 (m * BLOCK_SIZE cfg21) * top_block4 (m * BLOCK_SIZE cfg21))
   \<and> inner_update_mm cfg21 0 0 matrix44 left_block4 top_block4 1 1 2 10
       \<noteq> matrix44 10 + (\<Sum>m<GEMM_BLOCK cfg21.
                          left_block4 (m * BLOCK_SIZE cfg21) * top_block4 (m * BLOCK_SIZE cfg21))"
proof -
  have v: "inner_update_mm cfg21 0 0 matrix44 left_block4 top_block4 1 1 2 10 = 30"
    using inner_update_mm_entry [of cfg21 1 2 1 0 0 0 0 matrix44 left_block4 top_block4]
    by (simp add: cfg21 for_loop_2 matrix44_def left_block4_def top_block4_def)
  have i: "global_index cfg21 1 1 2 0 0 0 0 = 10"
    by (simp add: global_index_def cfg21)
  have two: "{..<2::nat} = {0, 1}" by auto
  show ?thesis
    unfolding v i
    by (simp add: cfg21 matrix44_def left_block4_def top_block4_def two)
qed

section \<open>Replication does not change the result\<close>

lemma run_worker_replica:
  "run_worker p u w left_blocks top_blocks blocks_per_row =
   run_worker p u 0 left_blocks top_blocks blocks_per_row"
  by (simp add: run_worker_def inner_update_mm_def fun_eq_iff)

lemma mset_filter_split:
  assumes "\<And>x. \<not> (P x \<and> Q x)"
  shows "mset (filter P xs) + mset (filter Q xs) = mset (filter (\<lambda>x. P x \<or> Q x) xs)"
  using assms by (induction xs) auto

lemma mset_partition:
  "mset (concat (map (\<lambda>w. filter (\<lambda>b. assign b = w) blks) [0..<R]))
   = mset (filter (\<lambda>b. assign b < R) blks)"
proof (induction R)
  case 0
  show ?case by simp
next
  case (Suc R)
  have "mset (filter (\<lambda>b. assign b < R) blks) + mset (filter (\<lambda>b. assign b = R) blks)
        = mset (filter (\<lambda>b. assign b < R \<or> assign b = R) blks)"
    by (rule mset_filter_split) simp
  moreover have "(\<lambda>b. assign b < R \<or> assign b = R) = (\<lambda>b. assign b < Suc R)"
    by (auto simp: fun_eq_iff)
  ultimately show ?case using Suc by simp
qed

text \<open>Two runs of the kernel on different blocks of the matrix commute.\<close>

lemma inner_update_mm_commute:
  assumes wf: "REGISTER_BLOCK_LOG p \<le> LOCAL_MEM_BLOCK_LOG p"
    and fit: "(blocks_per_row * BLOCK_SIZE p) * (blocks_per_row * BLOCK_SIZE p) \<le> 2 ^ 32"
    and b1: "bc1 < blocks_per_row" "br1 < blocks_per_row"
    and b2: "bc2 < blocks_per_row" "br2 < blocks_per_row"
    and ne: "(bc1, br1) \<noteq> (bc2, br2)"
  shows "inner_update_mm p u w1 (inner_update_mm p u w2 a l2 t2 bc2 br2 blocks_per_row)
           l1 t1 bc1 br1 blocks_per_row
         = inner_update_mm p u w2 (inner_update_mm p u w1 a l1 t1 bc1 br1 blocks_per_row)
           l2 t2 bc2 br2 blocks_per_row"
proof
  fix x
  let ?in1 = "\<exists>i ii j jj. i < MICRO_BLOCKS p \<and> ii < GEMM_BLOCK p \<and> j < MICRO_BLOCKS p
                \<and> jj < GEMM_BLOCK p \<and> x = global_index p bc1 br1 blocks_per_row i ii j jj"
  let ?in2 = "\<exists>i ii j jj. i < MICRO_BLOCKS p \<and> ii < GEMM_BLOCK p \<and> j < MICRO_BLOCKS p
                \<and> jj < GEMM_BLOCK p \<and> x = global_index p bc2 br2 blocks_per_row i ii j jj"
  let ?u1 = "\<lambda>a. inner_update_mm p u w1 a l1 t1 bc1 br1 blocks_per_row"
  let ?u2 = "\<lambda>a. inner_update_mm p u w2 a l2 t2 bc2 br2 blocks_per_row"
  have out1: "?u1 a' x = a' x" if "\<not> ?in1" for a'
    by (rule inner_update_mm_frame) (use that in blast)
  have out2: "?u2 a' x = a' x" if "\<not> ?in2" for a'
    by (rule inner_update_mm_frame) (use that in blast)
  have disj: "\<not> (?in1 \<and> ?in2)"
    using global_index_inj [OF b1 b2 fit] ne by (metis prod.inject)
  show "?u1 (?u2 a) x = ?u2 (?u1 a) x"
  proof (cases ?in1)
    case True
    then obtain i ii j jj where r: "i < MICRO_BLOCKS p" "ii < GEMM_BLOCK p" "j < MICRO_BLOCKS p"
        "jj < GEMM_BLOCK p" and x: "x = global_index p bc1 br1 blocks_per_row i ii j jj"
      by blast
    have n2: "\<not> ?in2" using True disj by blast
    have "?u1 (?u2 a) x = for_loop (BLOCK_SIZE p)
             (\<lambda>m acc. acc + l1 (m * BLOCK_SIZE p + (i * GEMM_BLOCK p + ii))
                            * t1 (m * BLOCK_SIZE p + (j * GEMM_BLOCK p + jj)))
             (?u2 a x)"
      unfolding x by (rule inner_update_mm_cell [OF wf b1 fit r])
    also have "\<dots> = for_loop (BLOCK_SIZE p)
             (\<lambda>m acc. acc + l1 (m * BLOCK_SIZE p + (i * GEMM_BLOCK p + ii))
                            * t1 (m * BLOCK_SIZE p + (j * GEMM_BLOCK p + jj)))
             (a x)"
      by (simp only: out2 [OF n2])
    also have "\<dots> = ?u1 a x"
      unfolding x by (rule inner_update_mm_cell [OF wf b1 fit r, symmetric])
    also have "\<dots> = ?u2 (?u1 a) x"
      by (simp only: out2 [OF n2])
    finally show ?thesis .
  next
    case n1: False
    show ?thesis
    proof (cases ?in2)
      case True
      then obtain i ii j jj where r: "i < MICRO_BLOCKS p" "ii < GEMM_BLOCK p" "j < MICRO_BLOCKS p"
          "jj < GEMM_BLOCK p" and x: "x = global_index p bc2 br2 blocks_per_row i ii j jj"
        by blast
      have "?u2 (?u1 a) x = for_loop (BLOCK_SIZE p)
               (\<lambda>m acc. acc + l2 (m * BLOCK_SIZE p + (i * GEMM_BLOCK p + ii))
                              * t2 (m * BLOCK_SIZE p + (j * GEMM_BLOCK p + jj)))
               (?u1 a x)"
        unfolding x by (rule inner_update_mm_cell [OF wf b2 fit r])
      also have "\<dots> = for_loop (BLOCK_SIZE p)
               (\<lambda>m acc. acc + l2 (m * BLOCK_SIZE p + (i * GEMM_BLOCK p + ii))
                              * t2 (m * BLOCK_SIZE p + (j * GEMM_BLOCK p + jj)))
               (a x)"
        by (simp only: out1 [OF n1])
      also have "\<dots> = ?u2 a x"
        unfolding x by (rule inner_update_mm_cell [OF wf b2 fit r, symmetric])
      also have "\<dots> = ?u1 (?u2 a) x"
        by (simp only: out1 [OF n1])
      finally show ?thesis by simp
    next
      case False
      then show ?thesis by (simp only: out1 [OF n1] out2 [OF False])
    qed
  qed
qed

lemma trailing_blocks_bounds:
  assumes "b \<in> set (trailing_blocks k blocks_per_row)"
  shows "fst b < blocks_per_row" and "snd b < blocks_per_row"
  using assms by (auto simp: trailing_blocks_def)

text \<open>
  With every trailing block assigned to one of the \<open>R\<close> workers, the partitioned update
  is the update of the blocks one after the other by a single worker.
\<close>

lemma trailing_update_sequential:
  assumes wf: "REGISTER_BLOCK_LOG p \<le> LOCAL_MEM_BLOCK_LOG p"
    and fit: "(blocks_per_row * BLOCK_SIZE p) * (blocks_per_row * BLOCK_SIZE p) \<le> 2 ^ 32"
    and valid: "\<And>b. b \<in> set (trailing_blocks k blocks_per_row) \<Longrightarrow> assign b < R"
  shows "trailing_update p u R assign left_blocks top_blocks k blocks_per_row a
         = run_worker p u 0 left_blocks top_blocks blocks_per_row
             (trailing_blocks k blocks_per_row) a"
proof -
  let ?blks = "trailing_blocks k blocks_per_row"
  let ?upd = "\<lambda>(i, j) a. inner_update_mm p u 0 a (left_blocks i) (top_blocks j) j i blocks_per_row"
  let ?parts = "concat (map (\<lambda>w. filter (\<lambda>b. assign b = w) ?blks) [0..<R])"
  have "trailing_update p u R assign left_blocks top_blocks k blocks_per_row a
        = fold (\<lambda>w. fold ?upd (filter (\<lambda>b. assign b = w) ?blks)) [0..<R] a"
    unfolding trailing_update_def
    by (subst run_worker_replica) (simp add: run_worker_def [abs_def])
  also have "\<dots> = fold ?upd ?parts a"
    by (simp add: fold_concat_map)
  also have "\<dots> = fold ?upd ?blks a"
  proof -
    have comm: "?upd x \<circ> ?upd y = ?upd y \<circ> ?upd x" if "x \<in> set ?blks" "y \<in> set ?blks" for x y
    proof (cases "x = y")
      case True
      then show ?thesis by simp
    next
      case False
      obtain i1 j1 i2 j2 where xy: "x = (i1, j1)" "y = (i2, j2)"
        by (cases x, cases y) blast
      have ne: "(j1, i1) \<noteq> (j2, i2)" using False xy by auto
      have b: "j1 < blocks_per_row" "i1 < blocks_per_row" "j2 < blocks_per_row" "i2 < blocks_per_row"
        using trailing_blocks_bounds [OF that(1)] trailing_blocks_bounds [OF that(2)] xy by simp_all
      show ?thesis
        unfolding xy
        by (rule ext) (simp add: inner_update_mm_commute [OF wf fit b(1,2,3,4) ne])
    qed
    have "mset ?blks = mset ?parts"
      using valid by (simp add: mset_partition)
    from fold_multiset_equiv [OF comm this] show ?thesis by simp
  qed
  finally show ?thesis by (simp add: run_worker_def)
qed

lemma factor_step_replication:
  assumes wf: "REGISTER_BLOCK_LOG p \<le> LOCAL_MEM_BLOCK_LOG p"
    and fit: "(blocks_per_row * BLOCK_SIZE p) * (blocks_per_row * BLOCK_SIZE p) \<le> 2 ^ 32"
    and v1: "\<And>b. b \<in> set (trailing_blocks k blocks_per_row) \<Longrightarrow> assign1 k b < R1"
    and v2: "\<And>b. b \<in> set (trailing_blocks k blocks_per_row) \<Longrightarrow> assign2 k b < R2"
  shows "factor_step p u top_junk R1 assign1 blocks_per_row k a
         = factor_step p u top_junk R2 assign2 blocks_per_row k a"
  unfolding factor_step_def Let_def
  by (simp add: trailing_update_sequential [OF wf fit v1] trailing_update_sequential [OF wf fit v2]
        split: prod.splits)

text \<open>
  Claim C6. For a well-formed configuration and a matrix whose indices fit the 32-bit
  index arithmetic, the factorization gives the same matrix for any two replication
  factors and any two assignments of the trailing blocks to the workers, as long as
  every block is assigned to one of the workers.
\<close>

theorem factorize_replication_independent:
  assumes "REGISTER_BLOCK_LOG p \<le> LOCAL_MEM_BLOCK_LOG p"
    and "(blocks_per_row * BLOCK_SIZE p) * (blocks_per_row * BLOCK_SIZE p) \<le> 2 ^ 32"
    and "\<forall>k < blocks_per_row. \<forall>b \<in> set (trailing_blocks k blocks_per_row). assign1 k b < R1"
    and "\<forall>k < blocks_per_row. \<forall>b \<in> set (trailing_blocks k blocks_per_row). assign2 k b < R2"
  shows "factorize p u top_junk R1 assign1 a blocks_per_row
         = factorize p u top_junk R2 assign2 a blocks_per_row"
proof -
  have "factor_step p u top_junk R1 assign1 blocks_per_row k a'
        = factor_step p u top_junk R2 assign2 blocks_per_row k a'"
    if "k \<in> set [0..<blocks_per_row]" for k a'
    using that assms(3,4) by (intro factor_step_replication [OF assms(1,2)]) auto
  then show ?thesis
    unfolding factorize_def by (intro fold_cong) auto
qed

text \<open>
  A matrix of 3 x 3 blocks has four trailing blocks at step 0. One worker visits them
  row by row; two workers that take the blocks by the parity of \<open>i + j\<close> visit
  \<open>(1, 1), (2, 2), (1, 2), (2, 1)\<close>; three workers that take them by
  \<open>(i + 2 * j) mod 3\<close> visit \<open>(1, 1), (2, 2), (2, 1), (1, 2)\<close>. All three give the same
  matrix.
\<close>

lemma trailing_blocks_0_3: "trailing_blocks 0 3 = [(1, 1), (1, 2), (2, 1), (2, 2)]"
  by code_simp

theorem factorize_replication_independent_witness:
  "filter (\<lambda>b. (fst b + snd b) mod 2 = 0) (trailing_blocks 0 3) = [(1, 1), (2, 2)]
   \<and> filter (\<lambda>b. (fst b + snd b) mod 2 = 1) (trailing_blocks 0 3) = [(1, 2), (2, 1)]
   \<and> filter (\<lambda>b. (fst b + 2 * snd b) mod 3 = 0) (trailing_blocks 0 3) = [(1, 1), (2, 2)]
   \<and> filter (\<lambda>b. (fst b + 2 * snd b) mod 3 = 1) (trailing_blocks 0 3) = [(2, 1)]
   \<and> filter (\<lambda>b. (fst b + 2 * snd b) mod 3 = 2) (trailing_blocks 0 3) = [(1, 2)]
   \<and> factorize cfg21 (0::real) (\<lambda>_ _ _. 0) 1 (\<lambda>_ _. 0) matrix66 3
     = factorize cfg21 0 (\<lambda>_ _ _. 0) 2 (\<lambda>_ b. (fst b + snd b) mod 2) matrix66 3
   \<and> factorize cfg21 (0::real) (\<lambda>_ _ _. 0) 2 (\<lambda>_ b. (fst b + snd b) mod 2) matrix66 3
     = factorize cfg21 0 (\<lambda>_ _ _. 0) 3 (\<lambda>_ b. (fst b + 2 * snd b) mod 3) matrix66 3"
  using factorize_replication_independent [of cfg21 3 "\<lambda>_ _. 0" 1
      "\<lambda>_ b. (fst b + snd b) mod 2" 2 "0::real" "\<lambda>_ _ _. 0" matrix66]
    factorize_replication_independent [of cfg21 3 "\<lambda>_ b. (fst b + snd b) mod 2" 2
      "\<lambda>_ b. (fst b + 2 * snd b) mod 3" 3 "0::real" "\<lambda>_ _ _. 0" matrix66]
  by (simp add: cfg21 trailing_blocks_0_3)

end
